theory Spec2Isabelle
  imports Main "HOL-Library.Word"
begin

section \<open>JavaScript strings and numbers\<close>

text \<open>
  A JavaScript string is a sequence of 16-bit code units. The regular expressions of
  \<^verbatim>\<open>pullRequestGitHelper.ts\<close> carry no \<^verbatim>\<open>u\<close> flag, so they work on code units, and
  \<^verbatim>\<open>.\<close> matches every code unit except the four line terminators.
\<close>

type_synonym code_unit = "16 word"
type_synonym jsstring = "code_unit list"

definition js :: "string \<Rightarrow> jsstring" where
  "js s = map of_char s"

definition isLineTerminator :: "code_unit \<Rightarrow> bool" where
  "isLineTerminator c = (c = 0x000A \<or> c = 0x000D \<or> c = 0x2028 \<or> c = 0x2029)"

definition isStrWhiteSpaceChar :: "code_unit \<Rightarrow> bool" where
  "isStrWhiteSpaceChar c =
     (c = 0x0009 \<or> c = 0x000B \<or> c = 0x000C \<or> c = 0x0020 \<or> c = 0x00A0 \<or> c = 0x1680
      \<or> (0x2000 \<le> c \<and> c \<le> 0x200A) \<or> c = 0x202F \<or> c = 0x205F \<or> c = 0x3000
      \<or> c = 0xFEFF \<or> isLineTerminator c)"

definition isDecimalDigit :: "code_unit \<Rightarrow> bool" where
  "isDecimalDigit c = (0x30 \<le> c \<and> c \<le> 0x39)"

definition isHexDigit :: "code_unit \<Rightarrow> bool" where
  "isHexDigit c = (isDecimalDigit c \<or> (0x41 \<le> c \<and> c \<le> 0x46) \<or> (0x61 \<le> c \<and> c \<le> 0x66))"

definition isOctalDigit :: "code_unit \<Rightarrow> bool" where
  "isOctalDigit c = (0x30 \<le> c \<and> c \<le> 0x37)"

definition isBinaryDigit :: "code_unit \<Rightarrow> bool" where
  "isBinaryDigit c = (c = 0x30 \<or> c = 0x31)"

definition digit_unit :: "nat \<Rightarrow> code_unit" where
  "digit_unit d = of_nat (48 + d)"

fun decimal :: "nat \<Rightarrow> jsstring" where
  "decimal n = (if n < 10 then [digit_unit n] else decimal (n div 10) @ [digit_unit (n mod 10)])"

declare decimal.simps [simp del]

text \<open>
  \<^verbatim>\<open>Number::toString\<close> on an integer-valued number: the decimal numeral, with a minus sign
  for a negative one. (JavaScript switches to exponent notation from \<open>10^21\<close> on; the pull
  request numbers and loop counters rendered here stay far below.)
\<close>

definition Number_toString :: "int \<Rightarrow> jsstring" where
  "Number_toString i = (if i < 0 then js ''-'' @ decimal (nat (- i)) else decimal (nat i))"

definition digits_value :: "jsstring \<Rightarrow> nat" where
  "digits_value ds = foldl (\<lambda>a c. 10 * a + (unat c - 48)) 0 ds"

text \<open>
  The result of \<^verbatim>\<open>Number(text)\<close>. \<open>JInt i\<close> is the number with the integer value \<open>i\<close>,
  produced for signed decimal integer literals of magnitude at most \<open>2^53\<close>, where a double
  is exact. \<open>JNaN\<close> is NaN. \<open>JOther t\<close> is the number denoted by the numeric literal \<open>t\<close>
  whose value is not computed here: a fraction, an exponent, a radix prefix,
  \<^verbatim>\<open>Infinity\<close>, or a magnitude above \<open>2^53\<close>.
\<close>

datatype js_number = JInt int | JNaN | JOther jsstring

definition trim :: "jsstring \<Rightarrow> jsstring" where
  "trim s = rev (dropWhile isStrWhiteSpaceChar (rev (dropWhile isStrWhiteSpaceChar s)))"

definition isExponentPartOpt :: "jsstring \<Rightarrow> bool" where
  "isExponentPartOpt r =
     (case r of
        [] \<Rightarrow> True
      | e # r' \<Rightarrow>
          (e = 0x65 \<or> e = 0x45) \<and>
          (let ds = (case r' of
                       [] \<Rightarrow> []
                     | sg # x \<Rightarrow> if sg = 0x2B \<or> sg = 0x2D then x else r')
           in ds \<noteq> [] \<and> list_all isDecimalDigit ds))"

definition isStrUnsignedDecimalLiteral :: "jsstring \<Rightarrow> bool" where
  "isStrUnsignedDecimalLiteral t =
     (t = js ''Infinity'' \<or>
      (let ip = takeWhile isDecimalDigit t; r1 = dropWhile isDecimalDigit t
       in case r1 of
            [] \<Rightarrow> ip \<noteq> []
          | c # r2 \<Rightarrow>
              if c = 0x2E
              then (let fp = takeWhile isDecimalDigit r2; r3 = dropWhile isDecimalDigit r2
                    in (ip \<noteq> [] \<or> fp \<noteq> []) \<and> isExponentPartOpt r3)
              else ip \<noteq> [] \<and> isExponentPartOpt r1))"

definition isNonDecimalIntegerLiteral :: "jsstring \<Rightarrow> bool" where
  "isNonDecimalIntegerLiteral t =
     (case t of
        z # x # ds \<Rightarrow>
          z = 0x30 \<and> ds \<noteq> [] \<and>
          (((x = 0x78 \<or> x = 0x58) \<and> list_all isHexDigit ds) \<or>
           ((x = 0x6F \<or> x = 0x4F) \<and> list_all isOctalDigit ds) \<or>
           ((x = 0x62 \<or> x = 0x42) \<and> list_all isBinaryDigit ds))
      | _ \<Rightarrow> False)"

text \<open>
  \<^verbatim>\<open>Number(text)\<close>, the StringToNumber conversion of ECMAScript: white space is trimmed,
  the empty text is \<open>0\<close>, a text that is not a StringNumericLiteral is NaN.
\<close>

definition Number_js :: "jsstring \<Rightarrow> js_number" where
  "Number_js s =
     (let t = trim s in
      if t = [] then JInt 0
      else
        let neg = (hd t = 0x2D);
            u = (if hd t = 0x2D \<or> hd t = 0x2B then tl t else t)
        in if u \<noteq> [] \<and> list_all isDecimalDigit u
           then (let v = digits_value u
                 in if v \<le> 2 ^ 53 then JInt (if neg then - int v else int v) else JOther t)
           else if isStrUnsignedDecimalLiteral u \<or> isNonDecimalIntegerLiteral t then JOther t
           else JNaN)"

section \<open>Regular expressions\<close>

text \<open>
  The two patterns of the file are sequences of literal code units and the capture groups
  \<^verbatim>\<open>(.*)\<close> and \<^verbatim>\<open>(.+)\<close>. \<open>rx_seq\<close> is the backtracking matcher of ECMAScript for such a
  sequence, anchored at the start of its input: a group first takes the longest run of
  code units that \<^verbatim>\<open>.\<close> accepts and gives them back one at a time until the rest of the
  pattern matches. The result is the list of captures.
\<close>

datatype rx = Lit code_unit | GroupStar | GroupPlus

primrec greedy ::
  "(jsstring \<Rightarrow> jsstring list option) \<Rightarrow> jsstring \<Rightarrow> nat \<Rightarrow> nat \<Rightarrow> jsstring list option" where
  "greedy k s lo 0 =
     (if 0 < lo then None
      else case k s of None \<Rightarrow> None | Some caps \<Rightarrow> Some ([] # caps))"
| "greedy k s lo (Suc n) =
     (if Suc n < lo then None
      else case k (drop (Suc n) s) of
             Some caps \<Rightarrow> Some (take (Suc n) s # caps)
           | None \<Rightarrow> greedy k s lo n)"

definition dotRun :: "jsstring \<Rightarrow> nat" where
  "dotRun s = length (takeWhile (\<lambda>c. \<not> isLineTerminator c) s)"

primrec rx_seq :: "rx list \<Rightarrow> jsstring \<Rightarrow> jsstring list option" where
  "rx_seq [] s = Some []"
| "rx_seq (r # rs) s =
     (case r of
        Lit c \<Rightarrow> (case s of [] \<Rightarrow> None | x # xs \<Rightarrow> if x = c then rx_seq rs xs else None)
      | GroupStar \<Rightarrow> greedy (rx_seq rs) s 0 (dotRun s)
      | GroupPlus \<Rightarrow> greedy (rx_seq rs) s 1 (dotRun s))"

text \<open>
  \<^verbatim>\<open>RegExp.prototype.exec\<close> with \<^verbatim>\<open>lastIndex = 0\<close>: the match is tried at every start
  position from the left, the end of the input included, and the first success wins.
\<close>

fun rx_exec :: "rx list \<Rightarrow> jsstring \<Rightarrow> jsstring list option" where
  "rx_exec p s =
     (case rx_seq p s of
        Some caps \<Rightarrow> Some caps
      | None \<Rightarrow> (case s of [] \<Rightarrow> None | x # xs \<Rightarrow> rx_exec p xs))"

declare rx_exec.simps [simp del]

section \<open>The pull request and its metadata\<close>

text \<open>
  \<open>Protocol\<close> (\<^verbatim>\<open>common/protocol\<close>), \<open>Remote\<close> (\<^verbatim>\<open>common/remote\<close>) and
  \<open>IPullRequestModel\<close> (\<^verbatim>\<open>./interface\<close>) are declared outside the file; the records hold
  the fields the file reads. \<open>uri\<close> is the text a \<open>Protocol\<close> was built from.
\<close>

record Protocol =
  owner :: jsstring
  repositoryName :: jsstring
  uri :: jsstring

record GitHubRef =
  ref :: jsstring
  sha :: jsstring
  repositoryCloneUrl :: Protocol

record Account =
  login :: jsstring

record IPullRequestModel =
  prNumber :: int
  author :: Account
  head :: GitHubRef
  base :: GitHubRef

record PullRequestMetadata =
  md_owner :: jsstring
  md_repositoryName :: jsstring
  md_prNumber :: js_number

definition PullRequestRemoteMetadataKey :: jsstring where
  "PullRequestRemoteMetadataKey = js ''github-pr-remote''"

definition PullRequestMetadataKey :: jsstring where
  "PullRequestMetadataKey = js ''github-pr-owner-number''"

definition PullRequestBranchRegex :: "rx list" where
  "PullRequestBranchRegex =
     map Lit (js ''branch.'') @ [GroupPlus] @ map Lit (js ''.github-pr-owner-number'')"

definition PullRequestMetadataRegex :: "rx list" where
  "PullRequestMetadataRegex = [GroupStar, Lit 0x23, GroupStar, Lit 0x23, GroupStar]"

definition buildPullRequestMetadata :: "IPullRequestModel \<Rightarrow> jsstring" where
  "buildPullRequestMetadata pullRequest =
     owner (repositoryCloneUrl (base pullRequest)) @ js ''#''
       @ repositoryName (repositoryCloneUrl (base pullRequest)) @ js ''#''
       @ Number_toString (prNumber pullRequest)"

text \<open>
  The argument is \<^verbatim>\<open>null\<close> (\<open>None\<close>) or a string; \<^verbatim>\<open>if (value)\<close> rejects \<^verbatim>\<open>null\<close> and
  the empty string. A match of the pattern always has the whole match and three groups,
  which is the test \<^verbatim>\<open>matches.length === 4\<close>.
\<close>

definition parsePullRequestMetadata :: "jsstring option \<Rightarrow> PullRequestMetadata option" where
  "parsePullRequestMetadata value =
     (case value of
        None \<Rightarrow> None
      | Some v \<Rightarrow>
          if v = [] then None
          else (case rx_exec PullRequestMetadataRegex v of
                  None \<Rightarrow> None
                | Some matches \<Rightarrow>
                    (case matches of
                       [owner', repo, prNumber'] \<Rightarrow>
                         Some \<lparr> md_owner = owner', md_repositoryName = repo,
                                md_prNumber = Number_js prNumber' \<rparr>
                     | _ \<Rightarrow> None)))"

section \<open>The repository\<close>

text \<open>
  \<open>Repository\<close> (\<^verbatim>\<open>common/repository\<close>) is the version-control engine the helper drives;
  its code is not part of the file. It is a parameter of every function below: a record
  of the observations the helper reads (the branches \<^verbatim>\<open>getBranch\<close> resolves, by name; the
  values of \<^verbatim>\<open>getConfig\<close>; the entries of \<^verbatim>\<open>getConfigs\<close>; the \<^verbatim>\<open>remotes\<close> property; the
  answers of \<^verbatim>\<open>getMergeBase\<close>) and of the effect \<open>perform\<close> of each command on the engine's
  own state \<open>'s\<close>, about which nothing is assumed. Every call is logged in order, which
  makes "no fetch is issued" a property of the log. A rejected engine call is outside the
  model: the errors below are the ones the helper raises itself. The lines written to the
  logger have no effect on the control flow and are left out.
\<close>

record Branch =
  name :: jsstring
  commit :: jsstring
  upstream :: "jsstring option"
  ahead :: "int option"
  behind :: "int option"

record Remote =
  remoteName :: jsstring
  url :: jsstring
  gitProtocol :: "Protocol option"

record GitHubRepository =
  remote :: Remote

datatype Call =
    GetBranch jsstring
  | GetConfig jsstring
  | GetConfigs
  | GetMergeBase jsstring jsstring
  | Checkout jsstring
  | CreateBranch jsstring jsstring
  | SetTrackingBranch jsstring jsstring
  | Fetch jsstring "jsstring option"
  | Run "jsstring list"
  | SetConfig jsstring jsstring
  | AddRemote jsstring jsstring

record 's Repository =
  refs :: "'s \<Rightarrow> (jsstring \<times> Branch) list"
  configValue :: "'s \<Rightarrow> jsstring \<Rightarrow> jsstring option"
  configEntries :: "'s \<Rightarrow> (jsstring \<times> jsstring) list"
  remotes :: "'s \<Rightarrow> Remote list"
  mergeBase :: "'s \<Rightarrow> jsstring \<Rightarrow> jsstring \<Rightarrow> jsstring option"
  perform :: "'s \<Rightarrow> Call \<Rightarrow> 's"

text \<open>
  The operations of \<open>Protocol\<close> the helper calls: the constructor from a URL, \<^verbatim>\<open>equals\<close>
  and \<^verbatim>\<open>normalizeUri().toString()\<close>. They belong to the host-integration layer and are a
  parameter as well.
\<close>

record ProtocolOps =
  newProtocol :: "jsstring \<Rightarrow> Protocol"
  equals :: "Protocol \<Rightarrow> Protocol \<Rightarrow> bool"
  normalizeUri :: "Protocol \<Rightarrow> jsstring"

datatype error = Error jsstring | TypeError

record 's session =
  st :: 's
  calls :: "Call list"

type_synonym ('s, 'a) task = "'s session \<Rightarrow> (error + 'a) \<times> 's session"

definition resolve :: "'a \<Rightarrow> ('s, 'a) task" where
  "resolve a \<sigma> = (Inr a, \<sigma>)"

definition throw :: "error \<Rightarrow> ('s, 'a) task" where
  "throw e \<sigma> = (Inl e, \<sigma>)"

definition await :: "('s, 'a) task \<Rightarrow> ('a \<Rightarrow> ('s, 'b) task) \<Rightarrow> ('s, 'b) task" where
  "await m k \<sigma> = (case m \<sigma> of (Inl e, \<sigma>') \<Rightarrow> (Inl e, \<sigma>') | (Inr a, \<sigma>') \<Rightarrow> k a \<sigma>')"

definition logged :: "Call \<Rightarrow> 's session \<Rightarrow> 's session" where
  "logged c \<sigma> = \<sigma>\<lparr>calls := calls \<sigma> @ [c]\<rparr>"

definition command :: "'s Repository \<Rightarrow> Call \<Rightarrow> ('s, unit) task" where
  "command repository c \<sigma> =
     (Inr (), \<lparr>st = perform repository (st \<sigma>) c, calls = calls \<sigma> @ [c]\<rparr>)"

definition getBranch :: "'s Repository \<Rightarrow> jsstring \<Rightarrow> ('s, Branch option) task" where
  "getBranch repository n \<sigma> = (Inr (map_of (refs repository (st \<sigma>)) n), logged (GetBranch n) \<sigma>)"

definition getConfig :: "'s Repository \<Rightarrow> jsstring \<Rightarrow> ('s, jsstring option) task" where
  "getConfig repository key \<sigma> = (Inr (configValue repository (st \<sigma>) key), logged (GetConfig key) \<sigma>)"

definition getConfigs :: "'s Repository \<Rightarrow> ('s, (jsstring \<times> jsstring) list) task" where
  "getConfigs repository \<sigma> = (Inr (configEntries repository (st \<sigma>)), logged GetConfigs \<sigma>)"

definition getMergeBase ::
  "'s Repository \<Rightarrow> jsstring \<Rightarrow> jsstring \<Rightarrow> ('s, jsstring option) task" where
  "getMergeBase repository a b \<sigma> =
     (Inr (mergeBase repository (st \<sigma>) a b), logged (GetMergeBase a b) \<sigma>)"

definition checkout :: "'s Repository \<Rightarrow> jsstring \<Rightarrow> ('s, unit) task" where
  "checkout repository n = command repository (Checkout n)"

definition createBranch :: "'s Repository \<Rightarrow> jsstring \<Rightarrow> jsstring \<Rightarrow> ('s, unit) task" where
  "createBranch repository n c = command repository (CreateBranch n c)"

definition setTrackingBranch :: "'s Repository \<Rightarrow> jsstring \<Rightarrow> jsstring \<Rightarrow> ('s, unit) task" where
  "setTrackingBranch repository n u = command repository (SetTrackingBranch n u)"

definition fetch :: "'s Repository \<Rightarrow> jsstring \<Rightarrow> jsstring option \<Rightarrow> ('s, unit) task" where
  "fetch repository r spec = command repository (Fetch r spec)"

definition run :: "'s Repository \<Rightarrow> jsstring list \<Rightarrow> ('s, unit) task" where
  "run repository args = command repository (Run args)"

definition setConfig :: "'s Repository \<Rightarrow> jsstring \<Rightarrow> jsstring \<Rightarrow> ('s, unit) task" where
  "setConfig repository key v = command repository (SetConfig key v)"

definition addRemote :: "'s Repository \<Rightarrow> jsstring \<Rightarrow> jsstring \<Rightarrow> ('s, unit) task" where
  "addRemote repository n u = command repository (AddRemote n u)"

text \<open>The calls a task issues when run from a session: what it appends to the log.\<close>

definition issued :: "('s, 'a) task \<Rightarrow> 's session \<Rightarrow> Call list" where
  "issued m \<sigma> = drop (length (calls \<sigma>)) (calls (snd (m \<sigma>)))"

text \<open>JavaScript truthiness of a string or \<^verbatim>\<open>null\<close>, and \<^verbatim>\<open>null\<close> inside a template literal.\<close>

definition truthy :: "jsstring option \<Rightarrow> bool" where
  "truthy v = (case v of None \<Rightarrow> False | Some s \<Rightarrow> s \<noteq> [])"

definition templated :: "jsstring option \<Rightarrow> jsstring" where
  "templated v = (case v of None \<Rightarrow> js ''null'' | Some s \<Rightarrow> s)"

section \<open>Decimal numerals and the termination of the naming loops\<close>

text \<open>
  The two naming loops count upwards and stop when the candidate name is free. They end
  because the candidates are pairwise different (a decimal numeral determines its number)
  and the repository holds finitely many names. The counter is a JavaScript number,
  exact below \<open>2^53\<close>; it is modelled as a natural number, which differs only for a
  repository with more than \<open>2^53\<close> branches or remotes.
\<close>

lemma unat_digit_unit: "d < 10 \<Longrightarrow> unat (digit_unit d) = 48 + d"
  unfolding digit_unit_def by (rule of_nat_inverse) simp_all

lemma isDecimalDigit_digit_unit: "d < 10 \<Longrightarrow> isDecimalDigit (digit_unit d)"
  by (simp add: isDecimalDigit_def word_le_nat_alt unat_digit_unit)

lemma digits_value_snoc: "digits_value (ds @ [c]) = 10 * digits_value ds + (unat c - 48)"
  by (simp add: digits_value_def)

lemma digits_value_decimal: "digits_value (decimal n) = n"
proof (induction n rule: decimal.induct)
  case (1 n)
  show ?case
  proof (cases "n < 10")
    case True
    then show ?thesis
      by (simp add: decimal.simps [of n] digits_value_def unat_digit_unit)
  next
    case False
    with 1 have "digits_value (decimal (n div 10)) = n div 10" by simp
    with False show ?thesis
      by (simp add: decimal.simps [of n] digits_value_snoc unat_digit_unit)
  qed
qed

lemma decimal_inj: "decimal n = decimal m \<Longrightarrow> n = m"
  by (metis digits_value_decimal)

lemma free_slots_decrease:
  assumes "inj cand" and "finite S" and "cand n \<in> S"
  shows "card {k. Suc n \<le> k \<and> cand k \<in> S} < card {k. n \<le> k \<and> cand k \<in> S}"
proof -
  have "finite (cand -` S)" using assms by (simp add: finite_vimageI)
  moreover have "{k. n \<le> k \<and> cand k \<in> S} \<subseteq> cand -` S" by auto
  ultimately have fin: "finite {k. n \<le> k \<and> cand k \<in> S}" by (rule rev_finite_subset)
  have "{k. Suc n \<le> k \<and> cand k \<in> S} \<subseteq> {k. n \<le> k \<and> cand k \<in> S}" by auto
  moreover have "n \<in> {k. n \<le> k \<and> cand k \<in> S}" "n \<notin> {k. Suc n \<le> k \<and> cand k \<in> S}"
    using assms(3) by auto
  ultimately have "{k. Suc n \<le> k \<and> cand k \<in> S} \<subset> {k. n \<le> k \<and> cand k \<in> S}"
    by blast
  with fin show ?thesis by (rule psubset_card_mono)
qed

lemma suffixed_inj: "inj (\<lambda>k. pre @ Number_toString (int k))"
  by (rule injI) (simp add: Number_toString_def decimal_inj)

section \<open>Naming\<close>

function getBranchNameForPullRequest_loop ::
  "'s Repository \<Rightarrow> jsstring \<Rightarrow> jsstring \<Rightarrow> nat \<Rightarrow> ('s, jsstring) task" where
  "getBranchNameForPullRequest_loop repository branchName result number \<sigma> =
     (case getBranch repository result \<sigma> of
        (Inl e, \<sigma>') \<Rightarrow> (Inl e, \<sigma>')
      | (Inr None, \<sigma>') \<Rightarrow> (Inr result, \<sigma>')
      | (Inr (Some currentBranch), \<sigma>') \<Rightarrow>
          getBranchNameForPullRequest_loop repository branchName
            (branchName @ js ''-'' @ Number_toString (int number)) (number + 1) \<sigma>')"
  by pat_completeness auto
termination
proof (relation "measure (\<lambda>(repository, branchName, result, number, \<sigma>).
    if result \<in> fst ` set (refs repository (st \<sigma>))
    then Suc (card {k. number \<le> k \<and>
           (branchName @ js ''-'') @ Number_toString (int k) \<in> fst ` set (refs repository (st \<sigma>))})
    else 0)", goal_cases)
  case 1
  show ?case by simp
next
  case (2 repository branchName result number \<sigma> x y a currentBranch)
  let ?S = "fst ` set (refs repository (st \<sigma>))"
  from 2 have y: "st y = st \<sigma>"
    and found: "map_of (refs repository (st \<sigma>)) result = Some currentBranch"
    by (auto simp: getBranch_def logged_def)
  from found have res: "result \<in> ?S"
    by (metis domI dom_map_of_conv_image_fst)
  have "(branchName @ js ''-'') @ Number_toString (int number) \<in> ?S \<Longrightarrow>
        card {k. Suc number \<le> k \<and> (branchName @ js ''-'') @ Number_toString (int k) \<in> ?S}
        < card {k. number \<le> k \<and> (branchName @ js ''-'') @ Number_toString (int k) \<in> ?S}"
    by (rule free_slots_decrease [OF suffixed_inj]) simp_all
  with y res show ?case by simp
qed

declare getBranchNameForPullRequest_loop.simps [simp del]

definition getBranchNameForPullRequest ::
  "'s Repository \<Rightarrow> IPullRequestModel \<Rightarrow> ('s, jsstring) task" where
  "getBranchNameForPullRequest repository pullRequest =
     (let branchName = js ''pr/'' @ login (author pullRequest) @ js ''/''
                         @ Number_toString (prNumber pullRequest)
      in getBranchNameForPullRequest_loop repository branchName branchName 1)"

function getUniqueRemoteName_loop :: "Remote list \<Rightarrow> jsstring \<Rightarrow> jsstring \<Rightarrow> nat \<Rightarrow> jsstring" where
  "getUniqueRemoteName_loop rs name' uniqueName number =
     (if find (\<lambda>e. remoteName e = uniqueName) rs \<noteq> None
      then getUniqueRemoteName_loop rs name' (name' @ Number_toString (int number)) (number + 1)
      else uniqueName)"
  by pat_completeness auto
termination
proof (relation "measure (\<lambda>(rs, name', uniqueName, number).
    if uniqueName \<in> remoteName ` set rs
    then Suc (card {k. number \<le> k \<and> name' @ Number_toString (int k) \<in> remoteName ` set rs})
    else 0)", goal_cases)
  case 1
  show ?case by simp
next
  case (2 rs name' uniqueName number)
  let ?S = "remoteName ` set rs"
  from 2 have res: "uniqueName \<in> ?S"
    by (auto simp: find_None_iff)
  have "name' @ Number_toString (int number) \<in> ?S \<Longrightarrow>
        card {k. Suc number \<le> k \<and> name' @ Number_toString (int k) \<in> ?S}
        < card {k. number \<le> k \<and> name' @ Number_toString (int k) \<in> ?S}"
    by (rule free_slots_decrease [OF suffixed_inj]) simp_all
  with res show ?case by simp
qed

declare getUniqueRemoteName_loop.simps [simp del]

definition getUniqueRemoteName :: "'s Repository \<Rightarrow> 's \<Rightarrow> jsstring \<Rightarrow> jsstring" where
  "getUniqueRemoteName repository s name' =
     getUniqueRemoteName_loop (remotes repository s) name' name' 1"


section \<open>Remotes\<close>

text \<open>
  \<^verbatim>\<open>getHeadRemoteForPullRequest\<close> does not use its \<^verbatim>\<open>repository\<close> argument, which the
  model leaves out.
\<close>

fun getHeadRemoteForPullRequest ::
  "ProtocolOps \<Rightarrow> GitHubRepository list \<Rightarrow> IPullRequestModel \<Rightarrow> Remote option" where
  "getHeadRemoteForPullRequest P [] pullRequest = None"
| "getHeadRemoteForPullRequest P (g # githubRepositories) pullRequest =
     (case gitProtocol (remote g) of
        None \<Rightarrow> getHeadRemoteForPullRequest P githubRepositories pullRequest
      | Some p \<Rightarrow>
          if equals P p (repositoryCloneUrl (head pullRequest)) then Some (remote g)
          else getHeadRemoteForPullRequest P githubRepositories pullRequest)"

definition createRemote :: "'s Repository \<Rightarrow> ProtocolOps \<Rightarrow> Protocol \<Rightarrow> ('s, jsstring) task" where
  "createRemote repository P cloneUrl \<sigma> =
     (case find (\<lambda>remote'. equals P (newProtocol P (url remote')) cloneUrl)
             (remotes repository (st \<sigma>)) of
        Some remote' \<Rightarrow> resolve (remoteName remote') \<sigma>
      | None \<Rightarrow>
          (let remoteName' = getUniqueRemoteName repository (st \<sigma>) (owner cloneUrl)
           in await (addRemote repository remoteName' (normalizeUri P cloneUrl)) (\<lambda>_.
              await (setConfig repository
                       (js ''remote.'' @ remoteName' @ js ''.'' @ PullRequestRemoteMetadataKey)
                       (js ''true'')) (\<lambda>_.
              resolve remoteName'))) \<sigma>)"

section \<open>Checkout\<close>

definition associateBranchWithPullRequest ::
  "'s Repository \<Rightarrow> IPullRequestModel \<Rightarrow> jsstring \<Rightarrow> ('s, unit) task" where
  "associateBranchWithPullRequest repository pullRequest branchName =
     setConfig repository (js ''branch.'' @ branchName @ js ''.'' @ PullRequestMetadataKey)
       (buildPullRequestMetadata pullRequest)"

definition createAndCheckout ::
  "'s Repository \<Rightarrow> ProtocolOps \<Rightarrow> IPullRequestModel \<Rightarrow> ('s, unit) task" where
  "createAndCheckout repository P pullRequest =
     await (getBranchNameForPullRequest repository pullRequest) (\<lambda>localBranchName.
     await (getBranch repository localBranchName) (\<lambda>existing.
     await (case existing of
              Some _ \<Rightarrow> checkout repository localBranchName
            | None \<Rightarrow>
                await (createRemote repository P (repositoryCloneUrl (head pullRequest)))
                  (\<lambda>remoteName'.
                await (fetch repository remoteName'
                         (Some (ref (head pullRequest) @ js '':'' @ localBranchName))) (\<lambda>_.
                await (checkout repository localBranchName) (\<lambda>_.
                setTrackingBranch repository localBranchName
                  (js ''refs/remotes/'' @ remoteName' @ js ''/'' @ ref (head pullRequest))))))
       (\<lambda>_.
     setConfig repository (js ''branch.'' @ localBranchName @ js ''.'' @ PullRequestMetadataKey)
       (buildPullRequestMetadata pullRequest))))"

definition fetchAndCreateBranch ::
  "'s Repository \<Rightarrow> Remote \<Rightarrow> jsstring \<Rightarrow> IPullRequestModel \<Rightarrow> ('s, unit) task" where
  "fetchAndCreateBranch repository remote' branchName pullRequest =
     (let trackedBranchName = js ''refs/remotes/'' @ remoteName remote' @ js ''/'' @ branchName
      in await (getBranch repository trackedBranchName) (\<lambda>trackedBranch.
         case trackedBranch of
           Some tb \<Rightarrow>
             await (createBranch repository branchName (commit tb)) (\<lambda>_.
             setTrackingBranch repository branchName trackedBranchName)
         | None \<Rightarrow>
             throw (Error (js ''Could not find branch '' @ [0x27] @ trackedBranchName
                             @ [0x27] @ js ''.''))))"

text \<open>
  In \<^verbatim>\<open>fetchAndCheckout\<close> the branch is read before the checkout. When it is still
  \<^verbatim>\<open>null\<close> after \<^verbatim>\<open>fetchAndCreateBranch\<close>, reading \<^verbatim>\<open>branch.upstream\<close> raises a
  \<^verbatim>\<open>TypeError\<close>, after the checkout was issued. The test \<^verbatim>\<open>!branch.upstream\<close> holds for
  an upstream that is undefined or empty.
\<close>

definition fetchAndCheckout ::
  "'s Repository \<Rightarrow> Remote \<Rightarrow> jsstring \<Rightarrow> IPullRequestModel \<Rightarrow> ('s, unit) task" where
  "fetchAndCheckout repository remote' branchName pullRequest =
     await (fetch repository (remoteName remote') None) (\<lambda>_.
     await (getBranch repository branchName) (\<lambda>branch0.
     await (case branch0 of
              Some b \<Rightarrow> resolve (Some b)
            | None \<Rightarrow>
                await (fetchAndCreateBranch repository remote' branchName pullRequest) (\<lambda>_.
                getBranch repository branchName)) (\<lambda>branch.
     await (checkout repository branchName) (\<lambda>_.
     case branch of
       None \<Rightarrow> throw TypeError
     | Some b \<Rightarrow>
         await (if \<not> truthy (upstream b)
                then setTrackingBranch repository branchName
                       (js ''refs/remotes/'' @ remoteName remote' @ js ''/'' @ branchName)
                else resolve ()) (\<lambda>_.
         await (if (case behind b of None \<Rightarrow> False | Some n \<Rightarrow> 0 < n) \<and> ahead b = Some 0
                then run repository [js ''pull'']
                else resolve ()) (\<lambda>_.
         associateBranchWithPullRequest repository pullRequest branchName))))))"

section \<open>Lookup among the existing remotes\<close>

text \<open>
  \<^verbatim>\<open>matches[1]\<close> is the first capture; \<^verbatim>\<open>c.branch && c.value === key\<close> keeps the entries
  with a truthy branch and the value \<open>key\<close>. The result is \<^verbatim>\<open>null\<close> or the pair of a
  remote and a branch name, the latter of type string or \<^verbatim>\<open>null\<close>.
\<close>

definition branchInfosOf ::
  "jsstring \<Rightarrow> (jsstring \<times> jsstring) list \<Rightarrow> (jsstring option \<times> jsstring) list" where
  "branchInfosOf key configs =
     filter (\<lambda>c. truthy (fst c) \<and> snd c = key)
       (map (\<lambda>config.
               (case rx_exec PullRequestBranchRegex (fst config) of
                  None \<Rightarrow> None
                | Some matches \<Rightarrow> (case matches of [] \<Rightarrow> None | m # _ \<Rightarrow> Some m),
                snd config))
          configs)"

definition getBranchForPullRequestFromExistingRemotes ::
  "'s Repository \<Rightarrow> ProtocolOps \<Rightarrow> GitHubRepository list \<Rightarrow> IPullRequestModel
     \<Rightarrow> ('s, (Remote \<times> jsstring option) option) task" where
  "getBranchForPullRequestFromExistingRemotes repository P githubRepositories pullRequest =
     (case getHeadRemoteForPullRequest P githubRepositories pullRequest of
        Some headRemote \<Rightarrow> resolve (Some (headRemote, Some (ref (head pullRequest))))
      | None \<Rightarrow>
          (let key = buildPullRequestMetadata pullRequest
           in await (getConfigs repository) (\<lambda>configs.
              case branchInfosOf key configs of
                [] \<Rightarrow> resolve None
              | info # _ \<Rightarrow>
                  await (getConfig repository
                           (js ''branch.'' @ templated (fst info) @ js ''.remote''))
                    (\<lambda>remoteName' \<sigma>.
                       case filter (\<lambda>r. Some (remoteName r) = remoteName')
                              (remotes repository (st \<sigma>)) of
                         [] \<Rightarrow> resolve None \<sigma>
                       | m # _ \<Rightarrow> resolve (Some (m, fst info)) \<sigma>))))"

section \<open>Merge base\<close>

definition getPullRequestMergeBase ::
  "'s Repository \<Rightarrow> Remote \<Rightarrow> IPullRequestModel \<Rightarrow> ('s, jsstring option) task" where
  "getPullRequestMergeBase repository remote' pullRequest =
     await (getMergeBase repository (sha (base pullRequest)) (sha (head pullRequest)))
       (\<lambda>mergeBase'.
     if truthy mergeBase' then resolve mergeBase'
     else
       await (fetch repository (remoteName remote')
                (Some (js ''refs/pull/'' @ Number_toString (prNumber pullRequest) @ js ''/head'')))
         (\<lambda>_.
       await (fetch repository (remoteName remote') (Some (ref (base pullRequest)))) (\<lambda>_.
       getMergeBase repository (sha (base pullRequest)) (sha (head pullRequest)))))"


section \<open>Example inputs\<close>

text \<open>
  The pull request of the scenarios: number 42 against \<^verbatim>\<open>octocat/hello-world\<close>, from the
  branch \<^verbatim>\<open>feature-x\<close> of the fork \<^verbatim>\<open>forker/hello-world\<close>, written by \<^verbatim>\<open>forker\<close>.
\<close>

definition pr42 :: IPullRequestModel where
  "pr42 =
     \<lparr> prNumber = 42,
       author = \<lparr> login = js ''forker'' \<rparr>,
       head = \<lparr> ref = js ''feature-x'', sha = js ''1111111'',
                repositoryCloneUrl =
                  \<lparr> owner = js ''forker'', repositoryName = js ''hello-world'',
                    uri = js ''https://github.com/forker/hello-world'' \<rparr> \<rparr>,
       base = \<lparr> ref = js ''master'', sha = js ''2222222'',
                repositoryCloneUrl =
                  \<lparr> owner = js ''octocat'', repositoryName = js ''hello-world'',
                    uri = js ''https://github.com/octocat/hello-world'' \<rparr> \<rparr> \<rparr>"

text \<open>A pull request whose base owner holds a line feed between \<^verbatim>\<open>a\<close> and \<^verbatim>\<open>b\<close>.\<close>

definition prTwoLines :: IPullRequestModel where
  "prTwoLines =
     \<lparr> prNumber = 1,
       author = \<lparr> login = js ''forker'' \<rparr>,
       head = \<lparr> ref = js ''feature-x'', sha = js ''1111111'',
                repositoryCloneUrl =
                  \<lparr> owner = js ''forker'', repositoryName = js ''r'',
                    uri = js ''https://github.com/forker/r'' \<rparr> \<rparr>,
       base = \<lparr> ref = js ''master'', sha = js ''2222222'',
                repositoryCloneUrl =
                  \<lparr> owner = [0x61, 0x0A, 0x62], repositoryName = js ''r'',
                    uri = js ''https://github.com/a/r'' \<rparr> \<rparr> \<rparr>"

section \<open>Notions used in the statements\<close>

text \<open>
  The candidates of the two naming loops, in the order they are tried: the name itself,
  then the name with \<^verbatim>\<open>-1\<close>, \<^verbatim>\<open>-2\<close>, ... for a branch and with \<^verbatim>\<open>1\<close>, \<^verbatim>\<open>2\<close>, ... for a
  remote.
\<close>

definition suffixedName :: "jsstring \<Rightarrow> nat \<Rightarrow> jsstring" where
  "suffixedName n k = (if k = 0 then n else n @ js ''-'' @ Number_toString (int k))"

definition numberedName :: "jsstring \<Rightarrow> nat \<Rightarrow> jsstring" where
  "numberedName n k = (if k = 0 then n else n @ Number_toString (int k))"

text \<open>
  The branch object \<^verbatim>\<open>fetchAndCheckout\<close> holds when it tests \<^verbatim>\<open>behind\<close> and \<^verbatim>\<open>ahead\<close>
  (lines 56 to 62): the branch \<^verbatim>\<open>getBranch\<close> finds after the fetch, or, when there is
  none, the one it finds after \<^verbatim>\<open>fetchAndCreateBranch\<close> has created it from the
  remote-tracking branch; none when that branch is missing too.
\<close>

definition checkedOutBranch ::
  "'s Repository \<Rightarrow> Remote \<Rightarrow> jsstring \<Rightarrow> 's session \<Rightarrow> Branch option" where
  "checkedOutBranch repository remote' branchName \<sigma> =
     (let s1 = perform repository (st \<sigma>) (Fetch (remoteName remote') None);
          tracked = js ''refs/remotes/'' @ remoteName remote' @ js ''/'' @ branchName
      in case map_of (refs repository s1) branchName of
           Some b \<Rightarrow> Some b
         | None \<Rightarrow>
             (case map_of (refs repository s1) tracked of
                None \<Rightarrow> None
              | Some tb \<Rightarrow>
                  map_of (refs repository
                            (perform repository
                               (perform repository s1 (CreateBranch branchName (commit tb)))
                               (SetTrackingBranch branchName tracked)))
                    branchName))"

section \<open>Repositories to run the helper on\<close>

text \<open>
  An in-memory repository, one instance of the parameter: tables of branches, remotes
  and config entries, and the commit each remote serves for a ref. A fetch of
  \<^verbatim>\<open>src:dst\<close> creates the local branch \<^verbatim>\<open>dst\<close> at the commit served for \<^verbatim>\<open>src\<close>; a fetch
  without a ref creates the remote-tracking branches of the remote. Clone identities are
  compared by their text.
\<close>

record Store =
  branchTable :: "(jsstring \<times> Branch) list"
  remoteTable :: "Remote list"
  configTable :: "(jsstring \<times> jsstring) list"
  served :: "((jsstring \<times> jsstring) \<times> jsstring) list"

definition plainProtocol :: ProtocolOps where
  "plainProtocol =
     \<lparr> newProtocol = (\<lambda>u. \<lparr> owner = [], repositoryName = [], uri = u \<rparr>),
       equals = (\<lambda>p q. uri p = uri q),
       normalizeUri = uri \<rparr>"

definition newBranch :: "jsstring \<Rightarrow> jsstring \<Rightarrow> Branch" where
  "newBranch n c = \<lparr> name = n, commit = c, upstream = None, ahead = None, behind = None \<rparr>"

definition storePerform :: "Store \<Rightarrow> Call \<Rightarrow> Store" where
  "storePerform s c =
     (case c of
        CreateBranch n cm \<Rightarrow> s\<lparr>branchTable := (n, newBranch n cm) # branchTable s\<rparr>
      | SetTrackingBranch n u \<Rightarrow>
          s\<lparr>branchTable :=
               map (\<lambda>e. if fst e = n then (fst e, (snd e)\<lparr>upstream := Some u\<rparr>) else e)
                 (branchTable s)\<rparr>
      | SetConfig k v \<Rightarrow> s\<lparr>configTable := filter (\<lambda>e. fst e \<noteq> k) (configTable s) @ [(k, v)]\<rparr>
      | AddRemote n u \<Rightarrow>
          s\<lparr>remoteTable :=
               remoteTable s
               @ [\<lparr> remoteName = n, url = u, gitProtocol = Some (newProtocol plainProtocol u) \<rparr>]\<rparr>
      | Fetch r spec \<Rightarrow>
          (case spec of
             None \<Rightarrow>
               s\<lparr>branchTable :=
                    map (\<lambda>e. (js ''refs/remotes/'' @ r @ js ''/'' @ snd (fst e),
                              newBranch (js ''refs/remotes/'' @ r @ js ''/'' @ snd (fst e)) (snd e)))
                      (filter (\<lambda>e. fst (fst e) = r) (served s))
                    @ branchTable s\<rparr>
           | Some sp \<Rightarrow>
               if 0x3A \<in> set sp
               then (case map_of (served s) (r, takeWhile (\<lambda>c. c \<noteq> 0x3A) sp) of
                       None \<Rightarrow> s
                     | Some cm \<Rightarrow>
                         s\<lparr>branchTable :=
                              (tl (dropWhile (\<lambda>c. c \<noteq> 0x3A) sp),
                               newBranch (tl (dropWhile (\<lambda>c. c \<noteq> 0x3A) sp)) cm)
                              # branchTable s\<rparr>)
               else s)
      | _ \<Rightarrow> s)"

definition storeRepository :: "Store Repository" where
  "storeRepository =
     \<lparr> refs = branchTable,
       configValue = (\<lambda>s. map_of (configTable s)),
       configEntries = configTable,
       remotes = remoteTable,
       mergeBase = (\<lambda>s a b. None),
       perform = storePerform \<rparr>"

text \<open>
  A repository whose state is the number of fetches made so far. It reports the empty
  string as the merge base until two fetches have been made and a commit afterwards.
\<close>

definition refetchingRepository :: "nat Repository" where
  "refetchingRepository =
     \<lparr> refs = (\<lambda>s. []),
       configValue = (\<lambda>s k. None),
       configEntries = (\<lambda>s. []),
       remotes = (\<lambda>s. []),
       mergeBase = (\<lambda>s a b. if s < 2 then Some [] else Some (js ''3333333'')),
       perform = (\<lambda>s c. case c of Fetch r spec \<Rightarrow> Suc s | _ \<Rightarrow> s) \<rparr>"

definition start :: "'s \<Rightarrow> 's session" where
  "start s = \<lparr> st = s, calls = [] \<rparr>"

text \<open>No branch, remote or config entry; the fork serves \<^verbatim>\<open>feature-x\<close>.\<close>

definition emptyStore :: Store where
  "emptyStore =
     \<lparr> branchTable = [], remoteTable = [], configTable = [],
       served = [((js ''forker'', js ''feature-x''), js ''1111111'')] \<rparr>"

text \<open>The same with a local branch \<^verbatim>\<open>pr/forker/42\<close>, created by hand.\<close>

definition storeWithBranch :: Store where
  "storeWithBranch =
     \<lparr> branchTable = [(js ''pr/forker/42'', newBranch (js ''pr/forker/42'') (js ''0000000''))],
       remoteTable = [], configTable = [],
       served = [((js ''forker'', js ''feature-x''), js ''1111111'')] \<rparr>"

definition originRemote :: Remote where
  "originRemote =
     \<lparr> remoteName = js ''origin'', url = js ''https://github.com/octocat/hello-world'',
       gitProtocol = Some \<lparr> owner = js ''octocat'', repositoryName = js ''hello-world'',
                           uri = js ''https://github.com/octocat/hello-world'' \<rparr> \<rparr>"

definition forkRemote :: Remote where
  "forkRemote =
     \<lparr> remoteName = js ''fork'', url = js ''https://github.com/forker/hello-world'',
       gitProtocol = Some \<lparr> owner = js ''forker'', repositoryName = js ''hello-world'',
                           uri = js ''https://github.com/forker/hello-world'' \<rparr> \<rparr>"

text \<open>
  Two branches carry the metadata of pull request 42. The first, \<^verbatim>\<open>a\<close>, has no remote
  entry; the second, \<^verbatim>\<open>b\<close>, has the remote \<^verbatim>\<open>origin\<close>, which exists.
\<close>

definition storeTwoAssociations :: Store where
  "storeTwoAssociations =
     \<lparr> branchTable = [], remoteTable = [originRemote],
       configTable =
         [(js ''branch.a.github-pr-owner-number'', js ''octocat#hello-world#42''),
          (js ''branch.b.github-pr-owner-number'', js ''octocat#hello-world#42''),
          (js ''branch.b.remote'', js ''origin'')],
       served = [] \<rparr>"

text \<open>The fork is a remote already, with its branch \<^verbatim>\<open>feature-x\<close> fetched.\<close>

definition storeWithFork :: Store where
  "storeWithFork =
     \<lparr> branchTable =
         [(js ''refs/remotes/fork/feature-x'',
           newBranch (js ''refs/remotes/fork/feature-x'') (js ''1111111''))],
       remoteTable = [originRemote, forkRemote], configTable = [],
       served = [((js ''fork'', js ''feature-x''), js ''1111111'')] \<rparr>"

text \<open>A local branch \<^verbatim>\<open>feature-x\<close> two commits behind its upstream, with none of its own.\<close>

definition storeBehind :: Store where
  "storeBehind =
     \<lparr> branchTable =
         [(js ''feature-x'',
           \<lparr> name = js ''feature-x'', commit = js ''0000000'',
             upstream = Some (js ''refs/remotes/fork/feature-x''),
             ahead = Some 0, behind = Some 2 \<rparr>)],
       remoteTable = [originRemote, forkRemote], configTable = [],
       served = [] \<rparr>"

text \<open>The first association of \<open>storeTwoAssociations\<close> given the remote \<^verbatim>\<open>origin\<close>.\<close>

definition storeFirstAssociation :: Store where
  "storeFirstAssociation =
     storePerform storeTwoAssociations (SetConfig (js ''branch.a.remote'') (js ''origin''))"

text \<open>
  An entry that is no association comes first; the branch \<^verbatim>\<open>a\<close> carries the metadata of pull
  request 42 and has the remote \<^verbatim>\<open>origin\<close>.
\<close>

definition storeUserFirst :: Store where
  "storeUserFirst =
     \<lparr> branchTable = [], remoteTable = [originRemote],
       configTable =
         [(js ''user.name'', js ''x''),
          (js ''branch.a.github-pr-owner-number'', js ''octocat#hello-world#42''),
          (js ''branch.a.remote'', js ''origin'')],
       served = [] \<rparr>"

text \<open>The only association is the one of another pull request, number 7.\<close>

definition storeOtherAssociation :: Store where
  "storeOtherAssociation =
     \<lparr> branchTable = [], remoteTable = [originRemote],
       configTable =
         [(js ''user.name'', js ''x''),
          (js ''branch.z.github-pr-owner-number'', js ''octocat#hello-world#7''),
          (js ''branch.z.remote'', js ''origin'')],
       served = [] \<rparr>"

text \<open>A clone identity whose owner is called \<^verbatim>\<open>origin\<close>, like an existing remote.\<close>

definition otherClone :: Protocol where
  "otherClone =
     \<lparr> owner = js ''origin'', repositoryName = js ''hello-world'',
       uri = js ''https://github.com/origin/hello-world'' \<rparr>"

section \<open>Properties of the matcher\<close>

lemma greedy_None:
  "(\<And>j. lo \<le> j \<Longrightarrow> j \<le> n \<Longrightarrow> k (drop j s) = None) \<Longrightarrow> greedy k s lo n = None"
proof (induction n)
  case 0
  then show ?case by (cases "0 < lo") (simp_all add: "0.prems" [of 0, simplified])
next
  case (Suc n)
  show ?case
  proof (cases "Suc n < lo")
    case True
    then show ?thesis by simp
  next
    case False
    then have "k (drop (Suc n) s) = None" by (simp add: Suc.prems)
    moreover have "greedy k s lo n = None" by (rule Suc.IH) (simp add: Suc.prems)
    ultimately show ?thesis using False by simp
  qed
qed

lemma greedy_last:
  assumes "lo \<le> j" and "j \<le> n" and "k (drop j s) = Some caps"
    and "\<And>i. j < i \<Longrightarrow> i \<le> n \<Longrightarrow> k (drop i s) = None"
  shows "greedy k s lo n = Some (take j s # caps)"
  using assms
proof (induction n)
  case 0
  then show ?case by simp
next
  case (Suc n)
  show ?case
  proof (cases "j = Suc n")
    case True
    with Suc.prems show ?thesis by simp
  next
    case False
    with Suc.prems have jn: "j \<le> n" by simp
    have "k (drop (Suc n) s) = None" using jn by (simp add: Suc.prems(4))
    moreover have "greedy k s lo n = Some (take j s # caps)"
      using Suc.prems jn by (intro Suc.IH) simp_all
    moreover have "\<not> Suc n < lo" using Suc.prems(1) jn by simp
    ultimately show ?thesis by simp
  qed
qed

lemma greedy_Some_ex:
  assumes "lo \<le> j" and "j \<le> n" and "k (drop j s) \<noteq> None"
  shows "greedy k s lo n \<noteq> None"
  using assms
proof (induction n)
  case 0
  then show ?case by auto
next
  case (Suc n)
  show ?case
  proof (cases "k (drop (Suc n) s)")
    case (Some caps)
    with Suc.prems show ?thesis by simp
  next
    case None
    with Suc.prems have "j \<noteq> Suc n" by auto
    with Suc.prems have "j \<le> n" by simp
    with Suc.prems have "greedy k s lo n \<noteq> None" by (intro Suc.IH) simp_all
    moreover have "\<not> Suc n < lo" using Suc.prems by simp
    ultimately show ?thesis using None by simp
  qed
qed

lemma greedy_SomeD:
  "greedy k s lo n = Some r \<Longrightarrow>
     \<exists>j caps. lo \<le> j \<and> j \<le> n \<and> k (drop j s) = Some caps \<and> r = take j s # caps"
proof (induction n)
  case 0
  then show ?case by (auto split: if_splits option.splits)
next
  case (Suc n)
  show ?case
  proof (cases "k (drop (Suc n) s)")
    case None
    with Suc.prems have "greedy k s lo n = Some r" by (simp split: if_splits)
    from Suc.IH [OF this] obtain j caps
      where "lo \<le> j" "j \<le> n" "k (drop j s) = Some caps" "r = take j s # caps" by blast
    then show ?thesis by (intro exI [of _ j] exI [of _ caps]) simp
  next
    case (Some caps)
    with Suc.prems have "\<not> Suc n < lo" "r = take (Suc n) s # caps"
      by (auto split: if_splits)
    with Some show ?thesis by (metis linorder_not_less order_refl)
  qed
qed


subsection \<open>The metadata pattern\<close>

lemma dotRun_append_ge:
  "\<forall>x\<in>set a. \<not> isLineTerminator x \<Longrightarrow> dotRun (a @ t) = length a + dotRun t"
  by (simp add: dotRun_def takeWhile_append2)

lemma hash_not_terminator: "\<not> isLineTerminator 0x23"
  by (simp add: isLineTerminator_def)

lemma rx_seq_GroupStar_end: "rx_seq [GroupStar] n = Some [takeWhile (\<lambda>c. \<not> isLineTerminator c) n]"
proof -
  have "greedy (rx_seq []) n 0 (dotRun n) = Some (take (dotRun n) n # [])"
    by (rule greedy_last) simp_all
  moreover have "take (dotRun n) n = takeWhile (\<lambda>c. \<not> isLineTerminator c) n"
    unfolding dotRun_def by (rule takeWhile_eq_take [symmetric])
  ultimately show ?thesis by simp
qed

lemma star_lit:
  assumes a: "\<forall>x\<in>set a. \<not> isLineTerminator x"
    and c: "\<not> isLineTerminator c"
    and b: "rx_seq rest b = Some caps"
    and later: "\<And>i. i < length b \<Longrightarrow> b ! i = c \<Longrightarrow> rx_seq rest (drop (Suc i) b) = None"
  shows "rx_seq (GroupStar # Lit c # rest) (a @ c # b) = Some (a # caps)"
proof -
  let ?s = "a @ c # b"
  have run: "length a \<le> dotRun ?s" using a by (simp add: dotRun_append_ge)
  have here: "rx_seq (Lit c # rest) (drop (length a) ?s) = Some caps" using b by simp
  have after: "rx_seq (Lit c # rest) (drop i ?s) = None" if "length a < i" for i
  proof -
    from that obtain m where i: "i = Suc (length a + m)" using less_imp_Suc_add by blast
    have d: "drop i ?s = drop m b" by (simp add: i)
    show ?thesis
    proof (cases "m < length b")
      case False
      then show ?thesis unfolding d by simp
    next
      case True
      then have "drop m b = b ! m # drop (Suc m) b" by (simp add: Cons_nth_drop_Suc)
      with later [OF True] show ?thesis unfolding d by simp
    qed
  qed
  have "greedy (rx_seq (Lit c # rest)) ?s 0 (dotRun ?s) = Some (take (length a) ?s # caps)"
    using run here after by (intro greedy_last) simp_all
  then show ?thesis by simp
qed

lemma star_lit_None:
  assumes "c \<notin> set t"
  shows "rx_seq (GroupStar # Lit c # rest) t = None"
proof -
  have "rx_seq (Lit c # rest) (drop j t) = None" for j
  proof (cases "drop j t")
    case Nil
    then show ?thesis by simp
  next
    case (Cons x xs)
    then have "x \<in> set (drop j t)" by simp
    then have "x \<in> set t" by (rule in_set_dropD)
    with assms have "x \<noteq> c" by auto
    with Cons show ?thesis by simp
  qed
  then have "greedy (rx_seq (Lit c # rest)) t 0 (dotRun t) = None"
    by (intro greedy_None)
  then show ?thesis by simp
qed

lemma metadata_line:
  assumes o: "\<forall>x\<in>set ow. \<not> isLineTerminator x"
    and r: "\<forall>x\<in>set r. \<not> isLineTerminator x"
    and hr: "0x23 \<notin> set r" and hn: "0x23 \<notin> set n"
  shows "rx_seq PullRequestMetadataRegex (ow @ 0x23 # r @ 0x23 # n)
         = Some [ow, r, takeWhile (\<lambda>c. \<not> isLineTerminator c) n]"
proof -
  let ?n' = "takeWhile (\<lambda>c. \<not> isLineTerminator c) n"
  have inner: "rx_seq [GroupStar, Lit 0x23, GroupStar] (r @ 0x23 # n) = Some [r, ?n']"
  proof (rule star_lit [OF r hash_not_terminator rx_seq_GroupStar_end])
    fix i assume lt: "i < length n" and h: "n ! i = 0x23"
    from lt have "n ! i \<in> set n" by (rule nth_mem)
    with hn h show "rx_seq [GroupStar] (drop (Suc i) n) = None" by simp
  qed
  have "rx_seq (GroupStar # Lit 0x23 # [GroupStar, Lit 0x23, GroupStar]) (ow @ 0x23 # (r @ 0x23 # n))
        = Some (ow # [r, ?n'])"
  proof (rule star_lit [OF o hash_not_terminator inner])
    fix i assume i: "i < length (r @ 0x23 # n)" and h: "(r @ 0x23 # n) ! i = 0x23"
    have "i = length r"
    proof (rule ccontr)
      assume ne: "i \<noteq> length r"
      show False
      proof (cases "i < length r")
        case True
        then have "r ! i = 0x23" using h by (simp add: nth_append)
        moreover from True have "r ! i \<in> set r" by (rule nth_mem)
        ultimately show False using hr by simp
      next
        case False
        with ne have "length r < i" by simp
        then obtain m where m: "i = Suc (length r + m)" using less_imp_Suc_add by blast
        with i have mn: "m < length n" by simp
        from h have "n ! m = 0x23" by (simp add: m nth_append)
        moreover from mn have "n ! m \<in> set n" by (rule nth_mem)
        ultimately show False using hn by simp
      qed
    qed
    then have "drop (Suc i) (r @ 0x23 # n) = n" by simp
    moreover have "rx_seq [GroupStar, Lit 0x23, GroupStar] n = None"
      using hn by (rule star_lit_None)
    ultimately show "rx_seq [GroupStar, Lit 0x23, GroupStar] (drop (Suc i) (r @ 0x23 # n)) = None"
      by (simp only:)
  qed
  then show ?thesis by (simp only: PullRequestMetadataRegex_def)
qed

lemma rx_exec_first: "rx_seq p s = Some caps \<Longrightarrow> rx_exec p s = Some caps"
  by (simp add: rx_exec.simps [of p s])

lemma rx_exec_later: "rx_seq p t \<noteq> None \<Longrightarrow> rx_exec p (a @ t) \<noteq> None"
proof (induction a)
  case Nil
  then show ?case by (auto simp: rx_exec.simps [of p t])
next
  case (Cons x a)
  then show ?case by (cases "rx_seq p (x # a @ t)") (simp_all add: rx_exec.simps [of p "x # a @ t"])
qed

lemma rx_exec_SomeD: "rx_exec p s = Some caps \<Longrightarrow> \<exists>i. rx_seq p (drop i s) = Some caps"
proof (induction s)
  case Nil
  then show ?case by (auto simp: rx_exec.simps [of p "[]"] split: option.splits)
next
  case (Cons x s)
  show ?case
  proof (cases "rx_seq p (x # s)")
    case (Some c)
    with Cons.prems have "c = caps" by (simp add: rx_exec.simps [of p "x # s"])
    with Some have "rx_seq p (drop 0 (x # s)) = Some caps" by simp
    then show ?thesis ..
  next
    case None
    with Cons.prems have "rx_exec p s = Some caps" by (simp add: rx_exec.simps [of p "x # s"])
    from Cons.IH [OF this] obtain i where "rx_seq p (drop i s) = Some caps" ..
    then have "rx_seq p (drop (Suc i) (x # s)) = Some caps" by simp
    then show ?thesis ..
  qed
qed

lemma two_hashes_match:
  assumes b: "\<forall>x\<in>set b. \<not> isLineTerminator x"
  shows "rx_seq PullRequestMetadataRegex (0x23 # b @ 0x23 # c) \<noteq> None"
proof -
  have "rx_seq [Lit 0x23, GroupStar] (drop (length b) (b @ 0x23 # c)) \<noteq> None"
    using rx_seq_GroupStar_end [of c] by simp
  moreover have "length b \<le> dotRun (b @ 0x23 # c)" using b by (simp add: dotRun_append_ge)
  ultimately have "greedy (rx_seq [Lit 0x23, GroupStar]) (b @ 0x23 # c) 0 (dotRun (b @ 0x23 # c)) \<noteq> None"
    by (intro greedy_Some_ex [where j = "length b"]) simp_all
  then have "rx_seq [GroupStar, Lit 0x23, GroupStar] (b @ 0x23 # c) \<noteq> None" by simp
  then have k: "rx_seq [Lit 0x23, GroupStar, Lit 0x23, GroupStar] (0x23 # b @ 0x23 # c) \<noteq> None"
    by simp
  have "greedy (rx_seq [Lit 0x23, GroupStar, Lit 0x23, GroupStar]) (0x23 # b @ 0x23 # c) 0
          (dotRun (0x23 # b @ 0x23 # c)) \<noteq> None"
    by (rule greedy_Some_ex [where j = 0]) (use k in simp_all)
  then show ?thesis by (simp add: PullRequestMetadataRegex_def)
qed


section \<open>Properties of the number conversions\<close>

lemma digit_facts:
  assumes "isDecimalDigit c"
  shows "\<not> isLineTerminator c" and "\<not> isStrWhiteSpaceChar c" and "c \<noteq> 0x23"
    and "c \<noteq> 0x2D" and "c \<noteq> 0x2B"
  using assms
  by (auto simp: isDecimalDigit_def isLineTerminator_def isStrWhiteSpaceChar_def word_le_nat_alt)

lemma decimal_digits: "list_all isDecimalDigit (decimal n)"
proof (induction n rule: decimal.induct)
  case (1 n)
  show ?case
  proof (cases "n < 10")
    case True
    then show ?thesis by (simp add: decimal.simps [of n] isDecimalDigit_digit_unit)
  next
    case False
    with 1 have "list_all isDecimalDigit (decimal (n div 10))" by simp
    with False show ?thesis by (simp add: decimal.simps [of n] isDecimalDigit_digit_unit)
  qed
qed

lemma decimal_not_Nil: "decimal n \<noteq> []"
  by (cases "n < 10") (simp_all add: decimal.simps [of n])

lemma trim_fixed:
  assumes "s \<noteq> []" and "\<not> isStrWhiteSpaceChar (hd s)" and "\<not> isStrWhiteSpaceChar (last s)"
  shows "trim s = s"
proof -
  from assms have 1: "dropWhile isStrWhiteSpaceChar s = s"
    by (cases s) simp_all
  from assms have "rev s \<noteq> []" "\<not> isStrWhiteSpaceChar (hd (rev s))"
    by (simp_all add: hd_rev)
  then have "dropWhile isStrWhiteSpaceChar (rev s) = rev s"
    by (cases "rev s") simp_all
  with 1 show ?thesis by (simp add: trim_def)
qed

lemma Number_toString_plain:
  "\<forall>c\<in>set (Number_toString i). \<not> isLineTerminator c \<and> c \<noteq> 0x23"
proof -
  have "\<forall>c\<in>set (decimal n). \<not> isLineTerminator c \<and> c \<noteq> 0x23" for n
    using decimal_digits [of n] by (auto simp: list_all_iff digit_facts)
  then show ?thesis
    by (auto simp: Number_toString_def js_def isLineTerminator_def)
qed

lemma Number_js_decimal:
  assumes "n \<le> 2 ^ 53"
  shows "Number_js (decimal n) = JInt (int n)"
    and "Number_js (0x2D # decimal n) = JInt (- int n)"
proof -
  let ?d = "decimal n"
  have ne: "?d \<noteq> []" by (rule decimal_not_Nil)
  have all: "list_all isDecimalDigit ?d" by (rule decimal_digits)
  from ne all have h: "isDecimalDigit (hd ?d)" and l: "isDecimalDigit (last ?d)"
    by (simp_all add: list_all_iff)
  have t1: "trim ?d = ?d" using ne h l by (intro trim_fixed) (simp_all add: digit_facts)
  have m: "\<not> isStrWhiteSpaceChar 0x2D"
    by (simp add: isStrWhiteSpaceChar_def isLineTerminator_def)
  have t2: "trim (0x2D # ?d) = 0x2D # ?d"
    using ne digit_facts(2) [OF l] m by (intro trim_fixed) simp_all
  show "Number_js ?d = JInt (int n)"
    using ne all assms digit_facts(4,5) [OF h]
    by (simp add: Number_js_def t1 digits_value_decimal)
  show "Number_js (0x2D # ?d) = JInt (- int n)"
    using ne all assms
    by (simp add: Number_js_def t2 digits_value_decimal)
qed

lemma Number_js_Number_toString:
  assumes "\<bar>i\<bar> \<le> 2 ^ 53"
  shows "Number_js (Number_toString i) = JInt i"
proof (cases "i < 0")
  case True
  with assms have "nat (- i) \<le> 2 ^ 53" by (simp add: nat_le_iff)
  from Number_js_decimal(2) [OF this] True show ?thesis
    by (simp add: Number_toString_def js_def)
next
  case False
  with assms have "nat i \<le> 2 ^ 53" by (simp add: nat_le_iff)
  from Number_js_decimal(1) [OF this] False show ?thesis
    by (simp add: Number_toString_def)
qed

lemma takeWhile_all: "\<forall>x\<in>set xs. P x \<Longrightarrow> takeWhile P xs = xs"
  by (simp add: takeWhile_eq_all_conv)


lemma metadata_matchD:
  assumes "rx_seq PullRequestMetadataRegex s = Some caps"
  shows "\<exists>ow r rest. s = ow @ 0x23 # r @ 0x23 # rest
           \<and> caps = [ow, r, takeWhile (\<lambda>c. \<not> isLineTerminator c) rest]"
proof -
  from assms have "greedy (rx_seq [Lit 0x23, GroupStar, Lit 0x23, GroupStar]) s 0 (dotRun s) = Some caps"
    by (simp add: PullRequestMetadataRegex_def)
  then obtain j c1 where 1: "rx_seq [Lit 0x23, GroupStar, Lit 0x23, GroupStar] (drop j s) = Some c1"
    and caps: "caps = take j s # c1"
    using greedy_SomeD by blast
  then obtain s1 where s1: "drop j s = 0x23 # s1"
    by (cases "drop j s") (auto split: if_splits)
  with 1 have "greedy (rx_seq [Lit 0x23, GroupStar]) s1 0 (dotRun s1) = Some c1" by simp
  then obtain j' c2 where 2: "rx_seq [Lit 0x23, GroupStar] (drop j' s1) = Some c2"
    and c1: "c1 = take j' s1 # c2"
    using greedy_SomeD by blast
  then obtain s2 where s2: "drop j' s1 = 0x23 # s2"
    by (cases "drop j' s1") (auto split: if_splits)
  have "rx_seq [Lit 0x23, GroupStar] (0x23 # s2) = rx_seq [GroupStar] s2" by simp
  with 2 have c2: "c2 = [takeWhile (\<lambda>c. \<not> isLineTerminator c) s2]"
    by (simp only: s2 rx_seq_GroupStar_end option.inject)
  have "s = take j s @ drop j s" by simp
  also have "\<dots> = take j s @ 0x23 # (take j' s1 @ drop j' s1)" by (simp add: s1)
  also have "\<dots> = take j s @ 0x23 # take j' s1 @ 0x23 # s2" by (simp add: s2)
  finally have "s = take j s @ 0x23 # take j' s1 @ 0x23 # s2" .
  with caps c1 c2 show ?thesis by blast
qed

lemma metadata_match_hashes:
  assumes "rx_seq PullRequestMetadataRegex s = Some caps"
  shows "2 \<le> count_list s 0x23"
proof -
  from metadata_matchD [OF assms] obtain ow r rest
    where "s = ow @ 0x23 # r @ 0x23 # rest" by blast
  then have "count_list s 0x23 = count_list (ow @ 0x23 # r @ 0x23 # rest) 0x23" by simp
  then show ?thesis by simp
qed

lemma metadata_exec_three:
  assumes "rx_exec PullRequestMetadataRegex s = Some caps"
  shows "\<exists>ow r n. caps = [ow, r, n]"
proof -
  from rx_exec_SomeD [OF assms] obtain i
    where "rx_seq PullRequestMetadataRegex (drop i s) = Some caps" ..
  from metadata_matchD [OF this] show ?thesis by blast
qed

lemma metadata_exec_hashes:
  assumes "rx_exec PullRequestMetadataRegex s = Some caps"
  shows "2 \<le> count_list s 0x23"
proof -
  from rx_exec_SomeD [OF assms] obtain i
    where "rx_seq PullRequestMetadataRegex (drop i s) = Some caps" ..
  then have "2 \<le> count_list (drop i s) 0x23" by (rule metadata_match_hashes)
  moreover have "count_list s 0x23 = count_list (take i s @ drop i s) 0x23" by simp
  then have "count_list (drop i s) 0x23 \<le> count_list s 0x23"
    by (simp only: count_list_append)
  ultimately show ?thesis by simp
qed

section \<open>The metadata codec\<close>

lemmas string_eval = js_def Number_toString_def decimal.simps digit_unit_def

lemmas rx_eval = rx_exec.simps dotRun_def isLineTerminator_def

lemmas number_eval =
  Number_js_def digits_value_def trim_def isStrWhiteSpaceChar_def isDecimalDigit_def
  isStrUnsignedDecimalLiteral_def isNonDecimalIntegerLiteral_def isExponentPartOpt_def

text \<open>
  C9. \<open>parsePullRequestMetadata\<close> returns \<^verbatim>\<open>null\<close>, as a value, for \<^verbatim>\<open>null\<close>, for the empty
  string and for \<^verbatim>\<open>"garbage"\<close>; more generally for every string with fewer than two
  \<^verbatim>\<open>#\<close>. The function is total and has no error result.
\<close>

theorem parsePullRequestMetadata_null:
  "parsePullRequestMetadata None = None
   \<and> parsePullRequestMetadata (Some []) = None
   \<and> parsePullRequestMetadata (Some (js ''garbage'')) = None
   \<and> (count_list v 0x23 < 2 \<longrightarrow> parsePullRequestMetadata (Some v) = None)"
proof -
  have "parsePullRequestMetadata (Some v) = None" if "count_list v 0x23 < 2"
  proof (cases "rx_exec PullRequestMetadataRegex v")
    case None
    then show ?thesis by (simp add: parsePullRequestMetadata_def)
  next
    case (Some caps)
    from metadata_exec_hashes [OF this] that show ?thesis by simp
  qed
  moreover have "parsePullRequestMetadata (Some (js ''garbage'')) = None"
    by (simp add: parsePullRequestMetadata_def PullRequestMetadataRegex_def string_eval rx_eval number_eval)
  ultimately show ?thesis by (simp add: parsePullRequestMetadata_def)
qed

theorem parsePullRequestMetadata_null_witness:
  "count_list (js ''no#way'') 0x23 < 2 \<and> parsePullRequestMetadata (Some (js ''no#way'')) = None"
  using parsePullRequestMetadata_null [of "js ''no#way''"] by (simp add: js_def)


text \<open>
  C3, as the claim states it, fails: \<^verbatim>\<open>.\<close> does not match a line terminator, so an
  owner \<^verbatim>\<open>a\<close>, line feed, \<^verbatim>\<open>b\<close> without any \<^verbatim>\<open>#\<close> is decoded as \<^verbatim>\<open>b\<close>.
\<close>

theorem parse_build_counterexample:
  "0x23 \<notin> set (owner (repositoryCloneUrl (base prTwoLines)))
   \<and> 0x23 \<notin> set (repositoryName (repositoryCloneUrl (base prTwoLines)))
   \<and> parsePullRequestMetadata (Some (buildPullRequestMetadata prTwoLines))
       = Some \<lparr> md_owner = js ''b'', md_repositoryName = js ''r'', md_prNumber = JInt 1 \<rparr>
   \<and> js ''b'' \<noteq> owner (repositoryCloneUrl (base prTwoLines))"
  by (simp add: prTwoLines_def buildPullRequestMetadata_def parsePullRequestMetadata_def PullRequestMetadataRegex_def string_eval rx_eval number_eval)

text \<open>
  C3, amended. For every pull request whose base owner and base repository name contain
  no \<^verbatim>\<open>#\<close> and no line terminator, and whose number is an integer of magnitude at most
  \<open>2^53\<close>, decoding the encoded metadata gives the base owner, the base repository name and
  the number.
\<close>

theorem parse_build_roundtrip:
  assumes "\<forall>c\<in>set (owner (repositoryCloneUrl (base pr))). c \<noteq> 0x23 \<and> \<not> isLineTerminator c"
    and "\<forall>c\<in>set (repositoryName (repositoryCloneUrl (base pr))). c \<noteq> 0x23 \<and> \<not> isLineTerminator c"
    and "\<bar>prNumber pr\<bar> \<le> 2 ^ 53"
  shows "parsePullRequestMetadata (Some (buildPullRequestMetadata pr))
         = Some \<lparr> md_owner = owner (repositoryCloneUrl (base pr)),
                  md_repositoryName = repositoryName (repositoryCloneUrl (base pr)),
                  md_prNumber = JInt (prNumber pr) \<rparr>"
proof -
  let ?o = "owner (repositoryCloneUrl (base pr))"
  let ?r = "repositoryName (repositoryCloneUrl (base pr))"
  let ?n = "Number_toString (prNumber pr)"
  have b: "buildPullRequestMetadata pr = ?o @ 0x23 # ?r @ 0x23 # ?n"
    by (simp add: buildPullRequestMetadata_def js_def)
  have n: "takeWhile (\<lambda>c. \<not> isLineTerminator c) ?n = ?n"
    using Number_toString_plain [of "prNumber pr"] by (intro takeWhile_all) simp
  have "rx_seq PullRequestMetadataRegex (?o @ 0x23 # ?r @ 0x23 # ?n)
        = Some [?o, ?r, takeWhile (\<lambda>c. \<not> isLineTerminator c) ?n]"
    using assms(1,2) Number_toString_plain [of "prNumber pr"]
    by (intro metadata_line) auto
  then have "rx_exec PullRequestMetadataRegex (buildPullRequestMetadata pr) = Some [?o, ?r, ?n]"
    unfolding b n by (rule rx_exec_first)
  moreover have "buildPullRequestMetadata pr \<noteq> []" by (simp add: b)
  ultimately show ?thesis
    by (simp add: parsePullRequestMetadata_def Number_js_Number_toString [OF assms(3)])
qed

theorem parse_build_roundtrip_witness:
  "list_all (\<lambda>c. c \<noteq> 0x23 \<and> \<not> isLineTerminator c) (owner (repositoryCloneUrl (base pr42)))
   \<and> list_all (\<lambda>c. c \<noteq> 0x23 \<and> \<not> isLineTerminator c)
         (repositoryName (repositoryCloneUrl (base pr42)))
   \<and> \<bar>prNumber pr42\<bar> \<le> 2 ^ 53
   \<and> parsePullRequestMetadata (Some (buildPullRequestMetadata pr42))
       = Some \<lparr> md_owner = js ''octocat'', md_repositoryName = js ''hello-world'',
                md_prNumber = JInt 42 \<rparr>"
proof -
  have 1: "\<forall>c\<in>set (owner (repositoryCloneUrl (base pr42))). c \<noteq> 0x23 \<and> \<not> isLineTerminator c"
    by (simp add: pr42_def js_def isLineTerminator_def)
  have 2: "\<forall>c\<in>set (repositoryName (repositoryCloneUrl (base pr42))). c \<noteq> 0x23 \<and> \<not> isLineTerminator c"
    by (simp add: pr42_def js_def isLineTerminator_def)
  have 3: "\<bar>prNumber pr42\<bar> \<le> 2 ^ 53" by (simp add: pr42_def)
  from parse_build_roundtrip [OF 1 2 3]
  have "parsePullRequestMetadata (Some (buildPullRequestMetadata pr42))
       = Some \<lparr> md_owner = js ''octocat'', md_repositoryName = js ''hello-world'',
                md_prNumber = JInt 42 \<rparr>"
    by (simp add: pr42_def)
  with 1 2 3 show ?thesis by (simp add: list_all_iff)
qed

text \<open>
  C10, as the claim states it, fails: the two \<^verbatim>\<open>#\<close> of the three code units \<^verbatim>\<open>#\<close>, line
  feed, \<^verbatim>\<open>#\<close> are on different lines, no match exists and the result is \<^verbatim>\<open>null\<close>.
\<close>

theorem parse_two_hashes_counterexample:
  "[0x23, 0x0A, 0x23] \<noteq> ([] :: jsstring)
   \<and> 2 \<le> count_list [0x23, 0x0A, 0x23 :: code_unit] 0x23
   \<and> parsePullRequestMetadata (Some [0x23, 0x0A, 0x23]) = None"
  by (simp add: parsePullRequestMetadata_def PullRequestMetadataRegex_def string_eval rx_eval number_eval)

text \<open>
  C10, amended. For every input holding two \<^verbatim>\<open>#\<close> with no line terminator between them,
  \<open>parsePullRequestMetadata\<close> returns a non-null result. When the text before the
  second-to-last \<^verbatim>\<open>#\<close> of the first line and the text between the last two have no line
  terminator, these are the owner and the repository name, and \<open>md_prNumber\<close> is the
  numeric conversion of the text after the last \<^verbatim>\<open>#\<close>, up to the end of the line. It is NaN
  when that text is not a number: \<^verbatim>\<open>"a#b#xyz"\<close> gives the owner \<^verbatim>\<open>a\<close>, the repository
  \<^verbatim>\<open>b\<close> and NaN.
\<close>

theorem parse_two_hashes:
  "((\<forall>x\<in>set b. \<not> isLineTerminator x)
      \<longrightarrow> parsePullRequestMetadata (Some (a @ 0x23 # b @ 0x23 # c)) \<noteq> None)
   \<and> ((\<forall>x\<in>set ow \<union> set r. \<not> isLineTerminator x) \<and> 0x23 \<notin> set r \<and> 0x23 \<notin> set n
      \<longrightarrow> parsePullRequestMetadata (Some (ow @ 0x23 # r @ 0x23 # n))
          = Some \<lparr> md_owner = ow, md_repositoryName = r,
                   md_prNumber = Number_js (takeWhile (\<lambda>c. \<not> isLineTerminator c) n) \<rparr>)
   \<and> parsePullRequestMetadata (Some (js ''a#b#xyz''))
       = Some \<lparr> md_owner = js ''a'', md_repositoryName = js ''b'', md_prNumber = JNaN \<rparr>"
proof (intro conjI impI)
  assume b: "\<forall>x\<in>set b. \<not> isLineTerminator x"
  have "rx_seq PullRequestMetadataRegex (0x23 # b @ 0x23 # c) \<noteq> None"
    using b by (rule two_hashes_match)
  then have "rx_exec PullRequestMetadataRegex (a @ 0x23 # b @ 0x23 # c) \<noteq> None"
    by (rule rx_exec_later)
  then obtain caps where caps: "rx_exec PullRequestMetadataRegex (a @ 0x23 # b @ 0x23 # c) = Some caps"
    by blast
  from metadata_exec_three [OF this] obtain x y z where "caps = [x, y, z]" by blast
  with caps show "parsePullRequestMetadata (Some (a @ 0x23 # b @ 0x23 # c)) \<noteq> None"
    by (simp add: parsePullRequestMetadata_def)
next
  assume h: "(\<forall>x\<in>set ow \<union> set r. \<not> isLineTerminator x) \<and> 0x23 \<notin> set r \<and> 0x23 \<notin> set n"
  then have "rx_seq PullRequestMetadataRegex (ow @ 0x23 # r @ 0x23 # n)
        = Some [ow, r, takeWhile (\<lambda>c. \<not> isLineTerminator c) n]"
    by (intro metadata_line) auto
  then have "rx_exec PullRequestMetadataRegex (ow @ 0x23 # r @ 0x23 # n)
        = Some [ow, r, takeWhile (\<lambda>c. \<not> isLineTerminator c) n]"
    by (rule rx_exec_first)
  then show "parsePullRequestMetadata (Some (ow @ 0x23 # r @ 0x23 # n))
          = Some \<lparr> md_owner = ow, md_repositoryName = r,
                   md_prNumber = Number_js (takeWhile (\<lambda>c. \<not> isLineTerminator c) n) \<rparr>"
    by (simp add: parsePullRequestMetadata_def)
next
  show "parsePullRequestMetadata (Some (js ''a#b#xyz''))
       = Some \<lparr> md_owner = js ''a'', md_repositoryName = js ''b'', md_prNumber = JNaN \<rparr>"
    by (simp add: parsePullRequestMetadata_def PullRequestMetadataRegex_def string_eval rx_eval number_eval)
qed

theorem parse_two_hashes_witness:
  "list_all (\<lambda>x. \<not> isLineTerminator x) (js ''b'')
   \<and> parsePullRequestMetadata (Some (js ''a'' @ 0x23 # js ''b'' @ 0x23 # js ''c#d'')) \<noteq> None
   \<and> list_all (\<lambda>x. \<not> isLineTerminator x) (js ''a#b'' @ js ''c'')
   \<and> 0x23 \<notin> set (js ''c'') \<and> 0x23 \<notin> set (js ''12'')
   \<and> parsePullRequestMetadata (Some (js ''a#b'' @ 0x23 # js ''c'' @ 0x23 # js ''12''))
       = Some \<lparr> md_owner = js ''a#b'', md_repositoryName = js ''c'', md_prNumber = JInt 12 \<rparr>"
proof -
  have 1: "\<forall>x\<in>set (js ''b''). \<not> isLineTerminator x"
    by (simp add: js_def isLineTerminator_def)
  have 2: "(\<forall>x\<in>set (js ''a#b'') \<union> set (js ''c''). \<not> isLineTerminator x)
           \<and> 0x23 \<notin> set (js ''c'') \<and> 0x23 \<notin> set (js ''12'')"
    by (simp add: js_def isLineTerminator_def)
  have 3: "Number_js (takeWhile (\<lambda>c. \<not> isLineTerminator c) (js ''12'')) = JInt 12"
    by (simp add: string_eval rx_eval number_eval)
  note t = parse_two_hashes [of "js ''b''" "js ''a''" "js ''c#d''" "js ''a#b''" "js ''c''" "js ''12''"]
  have 4: "parsePullRequestMetadata (Some (js ''a'' @ 0x23 # js ''b'' @ 0x23 # js ''c#d'')) \<noteq> None"
    using t [THEN conjunct1] 1 by (rule mp)
  have "parsePullRequestMetadata (Some (js ''a#b'' @ 0x23 # js ''c'' @ 0x23 # js ''12''))
       = Some \<lparr> md_owner = js ''a#b'', md_repositoryName = js ''c'',
                md_prNumber = Number_js (takeWhile (\<lambda>c. \<not> isLineTerminator c) (js ''12'')) \<rparr>"
    using t [THEN conjunct2, THEN conjunct1] 2 by (rule mp)
  then have 5: "parsePullRequestMetadata (Some (js ''a#b'' @ 0x23 # js ''c'' @ 0x23 # js ''12''))
       = Some \<lparr> md_owner = js ''a#b'', md_repositoryName = js ''c'', md_prNumber = JInt 12 \<rparr>"
    by (simp only: 3)
  from 1 2 have "list_all (\<lambda>x. \<not> isLineTerminator x) (js ''b'')"
    and "list_all (\<lambda>x. \<not> isLineTerminator x) (js ''a#b'' @ js ''c'')"
    by (simp_all add: list_all_iff)
  with 2 4 5 show ?thesis by blast
qed


section \<open>Properties of the naming loops\<close>

lemma loop_spec:
  "\<exists>r \<sigma>' xs. getBranchNameForPullRequest_loop repository bn result number \<sigma> = (Inr r, \<sigma>')
     \<and> st \<sigma>' = st \<sigma> \<and> calls \<sigma>' = calls \<sigma> @ xs
     \<and> map_of (refs repository (st \<sigma>)) r = None
     \<and> (r = result
        \<or> (map_of (refs repository (st \<sigma>)) result \<noteq> None
           \<and> (\<exists>k\<ge>number. r = bn @ js ''-'' @ Number_toString (int k)
                 \<and> (\<forall>j. number \<le> j \<and> j < k
                       \<longrightarrow> map_of (refs repository (st \<sigma>)) (bn @ js ''-'' @ Number_toString (int j)) \<noteq> None))))"
proof (induction repository bn result number \<sigma> rule: getBranchNameForPullRequest_loop.induct)
  case (1 repository bn result number \<sigma>)
  show ?case
  proof (cases "map_of (refs repository (st \<sigma>)) result")
    case None
    then show ?thesis
      by (simp add: getBranchNameForPullRequest_loop.simps [of repository bn result number \<sigma>]
            getBranch_def logged_def)
  next
    case (Some b)
    let ?\<sigma>1 = "logged (GetBranch result) \<sigma>"
    let ?c = "bn @ js ''-'' @ Number_toString (int number)"
    have g: "getBranch repository result \<sigma> = (Inr (Some b), ?\<sigma>1)"
      by (simp add: getBranch_def Some)
    from "1.IH" [OF g [symmetric] refl refl] obtain r \<sigma>' xs where
      run: "getBranchNameForPullRequest_loop repository bn ?c (number + 1) ?\<sigma>1 = (Inr r, \<sigma>')"
      and st: "st \<sigma>' = st ?\<sigma>1" and calls: "calls \<sigma>' = calls ?\<sigma>1 @ xs"
      and free: "map_of (refs repository (st ?\<sigma>1)) r = None"
      and which: "r = ?c
        \<or> (map_of (refs repository (st ?\<sigma>1)) ?c \<noteq> None
           \<and> (\<exists>k\<ge>number + 1. r = bn @ js ''-'' @ Number_toString (int k)
                 \<and> (\<forall>j. number + 1 \<le> j \<and> j < k
                       \<longrightarrow> map_of (refs repository (st ?\<sigma>1)) (bn @ js ''-'' @ Number_toString (int j)) \<noteq> None)))"
      by blast
    have s1: "st ?\<sigma>1 = st \<sigma>" by (simp add: logged_def)
    have eq: "getBranchNameForPullRequest_loop repository bn result number \<sigma> = (Inr r, \<sigma>')"
      using run by (simp add: getBranchNameForPullRequest_loop.simps [of repository bn result number \<sigma>] g)
    have k: "\<exists>k\<ge>number. r = bn @ js ''-'' @ Number_toString (int k)
                 \<and> (\<forall>j. number \<le> j \<and> j < k
                       \<longrightarrow> map_of (refs repository (st \<sigma>)) (bn @ js ''-'' @ Number_toString (int j)) \<noteq> None)"
    proof (rule disjE [OF which])
      assume "r = ?c"
      then show ?thesis by (intro exI [of _ number]) auto
    next
      assume a: "map_of (refs repository (st ?\<sigma>1)) ?c \<noteq> None
           \<and> (\<exists>k\<ge>number + 1. r = bn @ js ''-'' @ Number_toString (int k)
                 \<and> (\<forall>j. number + 1 \<le> j \<and> j < k
                       \<longrightarrow> map_of (refs repository (st ?\<sigma>1)) (bn @ js ''-'' @ Number_toString (int j)) \<noteq> None))"
      then obtain k where k: "number + 1 \<le> k" "r = bn @ js ''-'' @ Number_toString (int k)"
        and below: "\<forall>j. number + 1 \<le> j \<and> j < k
              \<longrightarrow> map_of (refs repository (st \<sigma>)) (bn @ js ''-'' @ Number_toString (int j)) \<noteq> None"
        unfolding s1 by blast
      from a have here: "map_of (refs repository (st \<sigma>)) ?c \<noteq> None" unfolding s1 by blast
      have "\<forall>j. number \<le> j \<and> j < k
              \<longrightarrow> map_of (refs repository (st \<sigma>)) (bn @ js ''-'' @ Number_toString (int j)) \<noteq> None"
      proof (intro allI impI)
        fix j assume j: "number \<le> j \<and> j < k"
        show "map_of (refs repository (st \<sigma>)) (bn @ js ''-'' @ Number_toString (int j)) \<noteq> None"
        proof (cases "j = number")
          case True
          with here show ?thesis by simp
        next
          case False
          with j have "number + 1 \<le> j \<and> j < k" by simp
          with below show ?thesis by blast
        qed
      qed
      with k show ?thesis by (intro exI [of _ k]) simp
    qed
    have "calls \<sigma>' = calls \<sigma> @ (GetBranch result # xs)" using calls by (simp add: logged_def)
    with eq st s1 free k Some show ?thesis by auto
  qed
qed


lemma unique_loop_spec:
  "getUniqueRemoteName_loop rs nm u number \<notin> remoteName ` set rs
   \<and> (getUniqueRemoteName_loop rs nm u number = u
      \<or> (u \<in> remoteName ` set rs
         \<and> (\<exists>k\<ge>number. getUniqueRemoteName_loop rs nm u number = nm @ Number_toString (int k)
               \<and> (\<forall>j. number \<le> j \<and> j < k \<longrightarrow> nm @ Number_toString (int j) \<in> remoteName ` set rs))))"
proof (induction rs nm u number rule: getUniqueRemoteName_loop.induct)
  case (1 rs nm u number)
  show ?case
  proof (cases "find (\<lambda>e. remoteName e = u) rs")
    case None
    then have "u \<notin> remoteName ` set rs" by (auto simp: find_None_iff)
    with None show ?thesis
      by (simp add: getUniqueRemoteName_loop.simps [of rs nm u number])
  next
    case (Some e)
    let ?c = "nm @ Number_toString (int number)"
    let ?r = "getUniqueRemoteName_loop rs nm ?c (number + 1)"
    from Some have u: "u \<in> remoteName ` set rs"
      by (metis (mono_tags, lifting) find_Some_iff image_eqI nth_mem)
    from Some have ne: "find (\<lambda>e. remoteName e = u) rs \<noteq> None" by simp
    have eq: "getUniqueRemoteName_loop rs nm u number = ?r"
      using ne by (simp add: getUniqueRemoteName_loop.simps [of rs nm u number])
    from "1.IH" [OF ne] have free: "?r \<notin> remoteName ` set rs"
      and which: "?r = ?c
        \<or> (?c \<in> remoteName ` set rs
           \<and> (\<exists>k\<ge>number + 1. ?r = nm @ Number_toString (int k)
                 \<and> (\<forall>j. number + 1 \<le> j \<and> j < k \<longrightarrow> nm @ Number_toString (int j) \<in> remoteName ` set rs)))"
      by blast+
    have k: "\<exists>k\<ge>number. ?r = nm @ Number_toString (int k)
               \<and> (\<forall>j. number \<le> j \<and> j < k \<longrightarrow> nm @ Number_toString (int j) \<in> remoteName ` set rs)"
    proof (rule disjE [OF which])
      assume "?r = ?c"
      then show ?thesis by (intro exI [of _ number]) auto
    next
      assume a: "?c \<in> remoteName ` set rs
           \<and> (\<exists>k\<ge>number + 1. ?r = nm @ Number_toString (int k)
                 \<and> (\<forall>j. number + 1 \<le> j \<and> j < k \<longrightarrow> nm @ Number_toString (int j) \<in> remoteName ` set rs))"
      then obtain k where k: "number + 1 \<le> k" "?r = nm @ Number_toString (int k)"
        and below: "\<forall>j. number + 1 \<le> j \<and> j < k \<longrightarrow> nm @ Number_toString (int j) \<in> remoteName ` set rs"
        by blast
      from a have here: "?c \<in> remoteName ` set rs" by blast
      have "\<forall>j. number \<le> j \<and> j < k \<longrightarrow> nm @ Number_toString (int j) \<in> remoteName ` set rs"
      proof (intro allI impI)
        fix j assume j: "number \<le> j \<and> j < k"
        show "nm @ Number_toString (int j) \<in> remoteName ` set rs"
        proof (cases "j = number")
          case True
          with here show ?thesis by simp
        next
          case False
          with j have "number + 1 \<le> j \<and> j < k" by simp
          with below show ?thesis by blast
        qed
      qed
      with k show ?thesis by (intro exI [of _ k]) simp
    qed
    from free k u show ?thesis unfolding eq by blast
  qed
qed


section \<open>Properties of the branch pattern\<close>

lemma rx_seq_Lits: "rx_seq (map Lit w @ rest) (w @ s) = rx_seq rest s"
  by (induction w) simp_all

lemma rx_seq_Lits_short: "length t < length w \<Longrightarrow> rx_seq (map Lit w) t = None"
proof (induction w arbitrary: t)
  case Nil
  then show ?case by simp
next
  case (Cons c w)
  then show ?case by (cases t) simp_all
qed

lemma branch_key_capture:
  assumes ne: "n \<noteq> []" and plain: "\<forall>x\<in>set n. \<not> isLineTerminator x"
  shows "rx_exec PullRequestBranchRegex (js ''branch.'' @ n @ js ''.github-pr-owner-number'') = Some [n]"
proof -
  let ?w = "js ''.github-pr-owner-number''"
  let ?s = "n @ ?w"
  have w: "\<forall>x\<in>set ?w. \<not> isLineTerminator x" by (simp add: js_def isLineTerminator_def)
  from plain w have "dotRun ?s = length ?s"
    by (simp add: dotRun_def takeWhile_eq_all_conv [THEN iffD2])
  then have run: "length n \<le> dotRun ?s" by simp
  have here: "rx_seq (map Lit ?w) (drop (length n) ?s) = Some []"
    using rx_seq_Lits [of ?w "[]" "[]"] by simp
  have wl: "0 < length ?w" by (simp add: js_def)
  have after: "rx_seq (map Lit ?w) (drop i ?s) = None" if "length n < i" for i
  proof -
    have "length (drop i ?s) < length ?w"
      using that wl by (simp only: length_drop length_append)
    then show ?thesis by (rule rx_seq_Lits_short)
  qed
  have "greedy (rx_seq (map Lit ?w)) ?s 1 (dotRun ?s) = Some (take (length n) ?s # [])"
    using ne run here after by (intro greedy_last) (simp_all add: Suc_le_eq)
  then have "rx_seq (GroupPlus # map Lit ?w) ?s = Some [n]" by simp
  then have "rx_seq (map Lit (js ''branch.'') @ GroupPlus # map Lit ?w) (js ''branch.'' @ ?s) = Some [n]"
    by (simp only: rx_seq_Lits)
  then have "rx_seq PullRequestBranchRegex (js ''branch.'' @ n @ ?w) = Some [n]"
    by (simp add: PullRequestBranchRegex_def)
  then show ?thesis by (rule rx_exec_first)
qed

lemma case_filter_find:
  "(case filter Q xs of [] \<Rightarrow> a | x # _ \<Rightarrow> f x) = (case find Q xs of None \<Rightarrow> a | Some x \<Rightarrow> f x)"
  by (induction xs) simp_all

lemma getHeadRemote_find:
  "getHeadRemoteForPullRequest P ghs pr
   = map_option remote
       (find (\<lambda>g. case gitProtocol (remote g) of
                    None \<Rightarrow> False
                  | Some p \<Rightarrow> equals P p (repositoryCloneUrl (head pr))) ghs)"
  by (induction ghs) (simp_all split: option.splits)


lemma rx_seq_LitsD:
  "rx_seq (map Lit w @ rest) s = Some caps \<Longrightarrow> \<exists>t. s = w @ t \<and> rx_seq rest t = Some caps"
proof (induction w arbitrary: s)
  case Nil
  then show ?case by simp
next
  case (Cons c w)
  then obtain x xs where s: "s = x # xs" by (cases s) auto
  with Cons.prems have x: "x = c" and m: "rx_seq (map Lit w @ rest) xs = Some caps"
    by (auto split: if_splits)
  from Cons.IH [OF m] obtain t where "xs = w @ t" "rx_seq rest t = Some caps" by blast
  with s x show ?case by simp
qed

lemma branch_matchD:
  assumes "rx_seq PullRequestBranchRegex s = Some caps"
  shows "\<exists>n post. s = js ''branch.'' @ n @ js ''.github-pr-owner-number'' @ post
           \<and> caps = [n] \<and> n \<noteq> []"
proof -
  let ?w = "js ''.github-pr-owner-number''"
  from assms have "rx_seq (map Lit (js ''branch.'') @ (GroupPlus # map Lit ?w)) s = Some caps"
    by (simp add: PullRequestBranchRegex_def)
  from rx_seq_LitsD [OF this] obtain t where s: "s = js ''branch.'' @ t"
    and t: "rx_seq (GroupPlus # map Lit ?w) t = Some caps" by blast
  from t have "greedy (rx_seq (map Lit ?w)) t 1 (dotRun t) = Some caps" by simp
  from greedy_SomeD [OF this] obtain j c where j: "1 \<le> j"
    and m: "rx_seq (map Lit ?w) (drop j t) = Some c" and caps: "caps = take j t # c" by blast
  from m have "rx_seq (map Lit ?w @ []) (drop j t) = Some c" by simp
  from rx_seq_LitsD [OF this] obtain post where d: "drop j t = ?w @ post"
    and "rx_seq [] post = Some c" by blast
  then have c: "c = []" by simp
  have "?w \<noteq> []" by (simp add: js_def)
  with d have "drop j t \<noteq> []" by simp
  then have "j < length t" by simp
  with j have ne: "take j t \<noteq> []" by (cases t) auto
  have "t = take j t @ drop j t" by simp
  with d have "t = take j t @ ?w @ post" by simp
  with s have "s = js ''branch.'' @ take j t @ ?w @ post" by simp
  with caps c ne show ?thesis by blast
qed

lemma branch_execD:
  assumes "rx_exec PullRequestBranchRegex k = Some caps"
  shows "\<exists>pre n post. k = pre @ js ''branch.'' @ n @ js ''.github-pr-owner-number'' @ post
           \<and> caps = [n] \<and> n \<noteq> []"
proof -
  from rx_exec_SomeD [OF assms] obtain i
    where "rx_seq PullRequestBranchRegex (drop i k) = Some caps" ..
  from branch_matchD [OF this] obtain n post
    where d: "drop i k = js ''branch.'' @ n @ js ''.github-pr-owner-number'' @ post"
      and c: "caps = [n]" "n \<noteq> []" by blast
  have "k = take i k @ drop i k" by simp
  with d have "k = take i k @ js ''branch.'' @ n @ js ''.github-pr-owner-number'' @ post" by simp
  with c show ?thesis by blast
qed

lemma branchInfosOf_Nil: "branchInfosOf key [] = []"
  by (simp add: branchInfosOf_def)

lemma branchInfosOf_other_value:
  "v \<noteq> key \<Longrightarrow> branchInfosOf key ((k, v) # configs) = branchInfosOf key configs"
  by (simp add: branchInfosOf_def)

lemma branchInfosOf_other_key:
  "rx_exec PullRequestBranchRegex k = None
   \<Longrightarrow> branchInfosOf key ((k, v) # configs) = branchInfosOf key configs"
  by (simp add: branchInfosOf_def truthy_def)

lemma branchInfosOf_match:
  assumes "rx_exec PullRequestBranchRegex k = Some caps"
  shows "\<exists>b. caps = [b] \<and> branchInfosOf key ((k, key) # configs) = (Some b, key) # branchInfosOf key configs"
proof -
  from branch_execD [OF assms] obtain b where "caps = [b]" "b \<noteq> []" by blast
  with assms show ?thesis by (simp add: branchInfosOf_def truthy_def)
qed

lemma branchInfosOf_none:
  "\<forall>e\<in>set configs. snd e \<noteq> key \<or> rx_exec PullRequestBranchRegex (fst e) = None
   \<Longrightarrow> branchInfosOf key configs = []"
proof (induction configs)
  case Nil
  then show ?case by (simp add: branchInfosOf_Nil)
next
  case (Cons e configs)
  obtain k v where e: "e = (k, v)" by (cases e)
  from Cons.prems have rest: "\<forall>e\<in>set configs. snd e \<noteq> key \<or> rx_exec PullRequestBranchRegex (fst e) = None"
    and here: "v \<noteq> key \<or> rx_exec PullRequestBranchRegex k = None"
    by (simp_all add: e)
  from here have "branchInfosOf key ((k, v) # configs) = branchInfosOf key configs"
    using branchInfosOf_other_value branchInfosOf_other_key by blast
  with Cons.IH [OF rest] show ?case by (simp add: e)
qed

lemma branchInfosOf_first:
  assumes "\<forall>e\<in>set pre. snd e \<noteq> key \<or> rx_exec PullRequestBranchRegex (fst e) = None"
    and "rx_exec PullRequestBranchRegex k = Some [b]"
  shows "branchInfosOf key (pre @ (k, key) # post) = (Some b, key) # branchInfosOf key post"
  using assms(1)
proof (induction pre)
  case Nil
  from branchInfosOf_match [OF assms(2), of key post] show ?case by simp
next
  case (Cons e pre)
  obtain k' v' where e: "e = (k', v')" by (cases e)
  from Cons.prems have rest: "\<forall>e\<in>set pre. snd e \<noteq> key \<or> rx_exec PullRequestBranchRegex (fst e) = None"
    and here: "v' \<noteq> key \<or> rx_exec PullRequestBranchRegex k' = None"
    by (simp_all add: e)
  from here have "branchInfosOf key ((k', v') # (pre @ (k, key) # post))
                  = branchInfosOf key (pre @ (k, key) # post)"
    using branchInfosOf_other_value branchInfosOf_other_key by blast
  with Cons.IH [OF rest] show ?case by (simp add: e)
qed

section \<open>The orchestration\<close>

lemmas task_defs =
  await_def resolve_def throw_def command_def logged_def getBranch_def getConfig_def
  getConfigs_def getMergeBase_def checkout_def createBranch_def setTrackingBranch_def
  fetch_def run_def setConfig_def addRemote_def

lemmas eval_defs = task_defs issued_def truthy_def templated_def Let_def

lemmas store_eval =
  storeRepository_def storePerform_def plainProtocol_def newBranch_def start_def
  pr42_def originRemote_def forkRemote_def

lemma find_in_set: "find Q xs = Some x \<Longrightarrow> x \<in> set xs \<and> Q x"
  by (induction xs) (auto split: if_splits)

lemma createRemote_result:
  "\<exists>rn \<sigma>' xs. createRemote repository P cloneUrl \<sigma> = (Inr rn, \<sigma>') \<and> calls \<sigma>' = calls \<sigma> @ xs"
  by (cases "find (\<lambda>r. equals P (newProtocol P (url r)) cloneUrl) (remotes repository (st \<sigma>))")
     (simp_all add: createRemote_def task_defs Let_def)

lemma createAndCheckout_always_fetches:
  "\<exists>rn n. Fetch rn (Some (ref (head pr) @ js '':'' @ n))
             \<in> set (issued (createAndCheckout repository P pr) \<sigma>)
         \<and> n \<notin> fst ` set (refs repository (st \<sigma>))"
proof -
  let ?bn = "js ''pr/'' @ login (author pr) @ js ''/'' @ Number_toString (prNumber pr)"
  from loop_spec [of repository ?bn ?bn 1 \<sigma>] obtain n \<sigma>1 xs where
    run: "getBranchNameForPullRequest_loop repository ?bn ?bn 1 \<sigma> = (Inr n, \<sigma>1)"
    and st: "st \<sigma>1 = st \<sigma>" and c1: "calls \<sigma>1 = calls \<sigma> @ xs"
    and free: "map_of (refs repository (st \<sigma>)) n = None" by blast
  have name: "getBranchNameForPullRequest repository pr \<sigma> = (Inr n, \<sigma>1)"
    using run by (simp add: getBranchNameForPullRequest_def Let_def)
  let ?\<sigma>2 = "logged (GetBranch n) \<sigma>1"
  from createRemote_result [of repository P "repositoryCloneUrl (head pr)" ?\<sigma>2]
  obtain rn \<sigma>3 ys where
    cr: "createRemote repository P (repositoryCloneUrl (head pr)) ?\<sigma>2 = (Inr rn, \<sigma>3)"
    and c3: "calls \<sigma>3 = calls ?\<sigma>2 @ ys" by blast
  have "calls (snd (createAndCheckout repository P pr \<sigma>))
        = calls \<sigma>3
          @ [Fetch rn (Some (ref (head pr) @ js '':'' @ n)), Checkout n,
             SetTrackingBranch n (js ''refs/remotes/'' @ rn @ js ''/'' @ ref (head pr)),
             SetConfig (js ''branch.'' @ n @ js ''.'' @ PullRequestMetadataKey)
               (buildPullRequestMetadata pr)]"
    using free st
    by (simp add: createAndCheckout_def await_def name getBranch_def cr
          fetch_def checkout_def setTrackingBranch_def setConfig_def command_def)
  with c1 c3 have "calls (snd (createAndCheckout repository P pr \<sigma>))
        = calls \<sigma> @ xs @ [GetBranch n] @ ys
          @ [Fetch rn (Some (ref (head pr) @ js '':'' @ n)), Checkout n,
             SetTrackingBranch n (js ''refs/remotes/'' @ rn @ js ''/'' @ ref (head pr)),
             SetConfig (js ''branch.'' @ n @ js ''.'' @ PullRequestMetadataKey)
               (buildPullRequestMetadata pr)]"
    by (simp add: logged_def)
  then have "Fetch rn (Some (ref (head pr) @ js '':'' @ n))
             \<in> set (issued (createAndCheckout repository P pr) \<sigma>)"
    by (simp add: issued_def)
  moreover from free have "n \<notin> fst ` set (refs repository (st \<sigma>))"
    by (simp add: map_of_eq_None_iff)
  ultimately show ?thesis by blast
qed



text \<open>
  C1. The code does not do what the claim says. \<open>getBranchNameForPullRequest\<close> never returns
  the name of an existing branch, so the test \<^verbatim>\<open>if (existing)\<close> of \<open>createAndCheckout\<close>
  always fails and every invocation fetches (\<open>createAndCheckout_always_fetches\<close>). With a
  local branch \<^verbatim>\<open>pr/forker/42\<close> in place, the helper creates and fetches a second branch
  \<^verbatim>\<open>pr/forker/42-1\<close>; invoked twice from the empty repository, the second invocation
  fetches and leaves two branches where the first left one.
\<close>

theorem createAndCheckout_refetches:
  "map_of (refs storeRepository storeWithBranch) (js ''pr/forker/42'') \<noteq> None
   \<and> issued (createAndCheckout storeRepository plainProtocol pr42) (start storeWithBranch)
       = [GetBranch (js ''pr/forker/42''),
          GetBranch (js ''pr/forker/42-1''),
          GetBranch (js ''pr/forker/42-1''),
          AddRemote (js ''forker'') (js ''https://github.com/forker/hello-world''),
          SetConfig (js ''remote.forker.github-pr-remote'') (js ''true''),
          Fetch (js ''forker'') (Some (js ''feature-x:pr/forker/42-1'')),
          Checkout (js ''pr/forker/42-1''),
          SetTrackingBranch (js ''pr/forker/42-1'') (js ''refs/remotes/forker/feature-x''),
          SetConfig (js ''branch.pr/forker/42-1.github-pr-owner-number'')
            (js ''octocat#hello-world#42'')]
   \<and> issued (createAndCheckout storeRepository plainProtocol pr42)
         (snd (createAndCheckout storeRepository plainProtocol pr42 (start emptyStore)))
       = [GetBranch (js ''pr/forker/42''),
          GetBranch (js ''pr/forker/42-1''),
          GetBranch (js ''pr/forker/42-1''),
          Fetch (js ''forker'') (Some (js ''feature-x:pr/forker/42-1'')),
          Checkout (js ''pr/forker/42-1''),
          SetTrackingBranch (js ''pr/forker/42-1'') (js ''refs/remotes/forker/feature-x''),
          SetConfig (js ''branch.pr/forker/42-1.github-pr-owner-number'')
            (js ''octocat#hello-world#42'')]
   \<and> map fst (branchTable (st (snd (createAndCheckout storeRepository plainProtocol pr42
                                      (start emptyStore)))))
       = [js ''pr/forker/42'']
   \<and> map fst (branchTable (st (snd (createAndCheckout storeRepository plainProtocol pr42
                 (snd (createAndCheckout storeRepository plainProtocol pr42 (start emptyStore)))))))
       = [js ''pr/forker/42-1'', js ''pr/forker/42'']"
  by (simp add: store_eval eval_defs string_eval emptyStore_def storeWithBranch_def
        createAndCheckout_def getBranchNameForPullRequest_def
        getBranchNameForPullRequest_loop.simps createRemote_def getUniqueRemoteName_def
        getUniqueRemoteName_loop.simps buildPullRequestMetadata_def
        PullRequestMetadataKey_def PullRequestRemoteMetadataKey_def)



text \<open>
  C5. \<open>getBranchNameForPullRequest\<close> returns the first of the candidates
  \<^verbatim>\<open>pr/<login>/<number>\<close>, \<^verbatim>\<open>pr/<login>/<number>-1\<close>, \<^verbatim>\<open>-2\<close>, ... that is not the name of an
  existing branch: a name outside the set of existing names, the canonical one when it
  is free (\<open>k = 0\<close>), and otherwise the suffixed one before which every candidate is
  taken. The repository is left as it was.
\<close>

theorem getBranchNameForPullRequest_spec:
  "\<exists>k. fst (getBranchNameForPullRequest repository pr \<sigma>)
          = Inr (suffixedName (js ''pr/'' @ login (author pr) @ js ''/'' @ Number_toString (prNumber pr)) k)
      \<and> suffixedName (js ''pr/'' @ login (author pr) @ js ''/'' @ Number_toString (prNumber pr)) k
          \<notin> fst ` set (refs repository (st \<sigma>))
      \<and> (\<forall>j<k. suffixedName (js ''pr/'' @ login (author pr) @ js ''/'' @ Number_toString (prNumber pr)) j
                 \<in> fst ` set (refs repository (st \<sigma>)))
      \<and> st (snd (getBranchNameForPullRequest repository pr \<sigma>)) = st \<sigma>"
proof -
  let ?bn = "js ''pr/'' @ login (author pr) @ js ''/'' @ Number_toString (prNumber pr)"
  let ?S = "fst ` set (refs repository (st \<sigma>))"
  have dom: "map_of (refs repository (st \<sigma>)) x = None \<longleftrightarrow> x \<notin> ?S" for x
    by (simp add: map_of_eq_None_iff)
  from loop_spec [of repository ?bn ?bn 1 \<sigma>] obtain r \<sigma>' xs where
    run: "getBranchNameForPullRequest_loop repository ?bn ?bn 1 \<sigma> = (Inr r, \<sigma>')"
    and st: "st \<sigma>' = st \<sigma>"
    and free: "r \<notin> ?S"
    and which: "r = ?bn
        \<or> (?bn \<in> ?S
           \<and> (\<exists>k\<ge>1. r = ?bn @ js ''-'' @ Number_toString (int k)
                 \<and> (\<forall>j. 1 \<le> j \<and> j < k \<longrightarrow> ?bn @ js ''-'' @ Number_toString (int j) \<in> ?S)))"
    unfolding dom by (auto simp: dom)
  have res: "getBranchNameForPullRequest repository pr \<sigma> = (Inr r, \<sigma>')"
    using run by (simp add: getBranchNameForPullRequest_def Let_def)
  from which show ?thesis
  proof
    assume "r = ?bn"
    with res st free show ?thesis
      by (intro exI [of _ 0]) (simp add: suffixedName_def)
  next
    assume "?bn \<in> ?S
           \<and> (\<exists>k\<ge>1. r = ?bn @ js ''-'' @ Number_toString (int k)
                 \<and> (\<forall>j. 1 \<le> j \<and> j < k \<longrightarrow> ?bn @ js ''-'' @ Number_toString (int j) \<in> ?S))"
    then obtain k where k: "1 \<le> k" "r = ?bn @ js ''-'' @ Number_toString (int k)"
      and below: "\<forall>j. 1 \<le> j \<and> j < k \<longrightarrow> ?bn @ js ''-'' @ Number_toString (int j) \<in> ?S"
      and here: "?bn \<in> ?S" by blast
    have "\<forall>j<k. suffixedName ?bn j \<in> ?S"
      using below here by (auto simp: suffixedName_def)
    with res st free k show ?thesis
      by (intro exI [of _ k]) (simp add: suffixedName_def)
  qed
qed



theorem getBranchNameForPullRequest_spec_witness:
  "fst (getBranchNameForPullRequest storeRepository pr42 (start storeWithBranch))
     = Inr (js ''pr/forker/42-1'')
   \<and> js ''pr/forker/42'' \<in> fst ` set (refs storeRepository (st (start storeWithBranch)))
   \<and> js ''pr/forker/42-1'' \<notin> fst ` set (refs storeRepository (st (start storeWithBranch)))"
proof -
  let ?c = "js ''pr/'' @ login (author pr42) @ js ''/'' @ Number_toString (prNumber pr42)"
  let ?S = "fst ` set (refs storeRepository (st (start storeWithBranch)))"
  have c0: "suffixedName ?c 0 = js ''pr/forker/42''" by (simp add: suffixedName_def store_eval string_eval)
  have c1: "suffixedName ?c 1 = js ''pr/forker/42-1''" by (simp add: suffixedName_def store_eval string_eval)
  have in0: "js ''pr/forker/42'' \<in> ?S" by (simp add: store_eval storeWithBranch_def string_eval)
  have out1: "js ''pr/forker/42-1'' \<notin> ?S" by (simp add: store_eval storeWithBranch_def string_eval)
  from getBranchNameForPullRequest_spec [of storeRepository pr42 "start storeWithBranch"]
  obtain k where
    res: "fst (getBranchNameForPullRequest storeRepository pr42 (start storeWithBranch))
            = Inr (suffixedName ?c k)"
    and free: "suffixedName ?c k \<notin> ?S"
    and below: "\<forall>j<k. suffixedName ?c j \<in> ?S"
    by blast
  from in0 have in0': "suffixedName ?c 0 \<in> ?S" unfolding c0 .
  from out1 have out1': "suffixedName ?c 1 \<notin> ?S" unfolding c1 .
  have "k \<noteq> 0"
  proof
    assume "k = 0"
    with free in0' show False by simp
  qed
  moreover have "\<not> 1 < k"
  proof
    assume "1 < k"
    with below have "suffixedName ?c 1 \<in> ?S" by simp
    with out1' show False by simp
  qed
  ultimately have "k = 1" by simp
  with res c1 in0 out1 show ?thesis by simp
qed

text \<open>
  C4. When some remote's URL equals the clone URL, \<open>createRemote\<close> returns the name of the
  first such remote and changes nothing, not even the log of calls. Otherwise it returns
  the first of the candidates \<^verbatim>\<open><owner>\<close>, \<^verbatim>\<open><owner>1\<close>, \<^verbatim>\<open><owner>2\<close>, ... that no remote
  bears, after adding a remote of that name at the normalized URL and writing
  \<^verbatim>\<open>remote.<name>.github-pr-remote\<close> with the value \<^verbatim>\<open>true\<close>.
\<close>

theorem createRemote_spec:
  "(find (\<lambda>r. equals P (newProtocol P (url r)) cloneUrl) (remotes repository (st \<sigma>)) = Some rm
      \<longrightarrow> rm \<in> set (remotes repository (st \<sigma>))
          \<and> equals P (newProtocol P (url rm)) cloneUrl
          \<and> createRemote repository P cloneUrl \<sigma> = (Inr (remoteName rm), \<sigma>))
   \<and> ((\<forall>r\<in>set (remotes repository (st \<sigma>)). \<not> equals P (newProtocol P (url r)) cloneUrl)
      \<longrightarrow> createRemote repository P cloneUrl \<sigma>
          = (Inr (getUniqueRemoteName repository (st \<sigma>) (owner cloneUrl)),
             \<lparr> st = perform repository
                       (perform repository (st \<sigma>)
                          (AddRemote (getUniqueRemoteName repository (st \<sigma>) (owner cloneUrl))
                             (normalizeUri P cloneUrl)))
                       (SetConfig
                          (js ''remote.'' @ getUniqueRemoteName repository (st \<sigma>) (owner cloneUrl)
                             @ js ''.github-pr-remote'')
                          (js ''true'')),
               calls = calls \<sigma>
                 @ [AddRemote (getUniqueRemoteName repository (st \<sigma>) (owner cloneUrl))
                      (normalizeUri P cloneUrl),
                    SetConfig
                      (js ''remote.'' @ getUniqueRemoteName repository (st \<sigma>) (owner cloneUrl)
                         @ js ''.github-pr-remote'')
                      (js ''true'')] \<rparr>))
   \<and> (\<exists>k. getUniqueRemoteName repository (st \<sigma>) (owner cloneUrl) = numberedName (owner cloneUrl) k
          \<and> numberedName (owner cloneUrl) k \<notin> remoteName ` set (remotes repository (st \<sigma>))
          \<and> (\<forall>j<k. numberedName (owner cloneUrl) j \<in> remoteName ` set (remotes repository (st \<sigma>))))"
proof (intro conjI impI)
  assume f: "find (\<lambda>r. equals P (newProtocol P (url r)) cloneUrl) (remotes repository (st \<sigma>)) = Some rm"
  from find_in_set [OF f] show "rm \<in> set (remotes repository (st \<sigma>))"
    and "equals P (newProtocol P (url rm)) cloneUrl" by blast+
  from f show "createRemote repository P cloneUrl \<sigma> = (Inr (remoteName rm), \<sigma>)"
    by (simp add: createRemote_def resolve_def)
next
  assume "\<forall>r\<in>set (remotes repository (st \<sigma>)). \<not> equals P (newProtocol P (url r)) cloneUrl"
  then have "find (\<lambda>r. equals P (newProtocol P (url r)) cloneUrl) (remotes repository (st \<sigma>)) = None"
    by (simp add: find_None_iff)
  then show "createRemote repository P cloneUrl \<sigma>
          = (Inr (getUniqueRemoteName repository (st \<sigma>) (owner cloneUrl)),
             \<lparr> st = perform repository
                       (perform repository (st \<sigma>)
                          (AddRemote (getUniqueRemoteName repository (st \<sigma>) (owner cloneUrl))
                             (normalizeUri P cloneUrl)))
                       (SetConfig
                          (js ''remote.'' @ getUniqueRemoteName repository (st \<sigma>) (owner cloneUrl)
                             @ js ''.github-pr-remote'')
                          (js ''true'')),
               calls = calls \<sigma>
                 @ [AddRemote (getUniqueRemoteName repository (st \<sigma>) (owner cloneUrl))
                      (normalizeUri P cloneUrl),
                    SetConfig
                      (js ''remote.'' @ getUniqueRemoteName repository (st \<sigma>) (owner cloneUrl)
                         @ js ''.github-pr-remote'')
                      (js ''true'')] \<rparr>)"
    by (simp add: createRemote_def task_defs Let_def PullRequestRemoteMetadataKey_def js_def)
next
  let ?rs = "remotes repository (st \<sigma>)"
  let ?o = "owner cloneUrl"
  let ?u = "getUniqueRemoteName_loop ?rs ?o ?o 1"
  from unique_loop_spec [of ?rs ?o ?o 1]
  have free: "?u \<notin> remoteName ` set ?rs"
    and which: "?u = ?o \<or> (?o \<in> remoteName ` set ?rs
         \<and> (\<exists>k\<ge>1. ?u = ?o @ Number_toString (int k)
               \<and> (\<forall>j. 1 \<le> j \<and> j < k \<longrightarrow> ?o @ Number_toString (int j) \<in> remoteName ` set ?rs)))"
    by blast+
  from which show "\<exists>k. getUniqueRemoteName repository (st \<sigma>) ?o = numberedName ?o k
          \<and> numberedName ?o k \<notin> remoteName ` set ?rs
          \<and> (\<forall>j<k. numberedName ?o j \<in> remoteName ` set ?rs)"
  proof
    assume "?u = ?o"
    with free show ?thesis
      by (intro exI [of _ 0]) (simp add: numberedName_def getUniqueRemoteName_def)
  next
    assume "?o \<in> remoteName ` set ?rs
         \<and> (\<exists>k\<ge>1. ?u = ?o @ Number_toString (int k)
               \<and> (\<forall>j. 1 \<le> j \<and> j < k \<longrightarrow> ?o @ Number_toString (int j) \<in> remoteName ` set ?rs))"
    then obtain k where k: "1 \<le> k" "?u = ?o @ Number_toString (int k)"
      and below: "\<forall>j. 1 \<le> j \<and> j < k \<longrightarrow> ?o @ Number_toString (int j) \<in> remoteName ` set ?rs"
      and here: "?o \<in> remoteName ` set ?rs" by blast
    have "\<forall>j<k. numberedName ?o j \<in> remoteName ` set ?rs"
      using below here by (auto simp: numberedName_def)
    with free k show ?thesis
      by (intro exI [of _ k]) (simp add: numberedName_def getUniqueRemoteName_def)
  qed
qed


theorem createRemote_spec_witness:
  "find (\<lambda>r. equals plainProtocol (newProtocol plainProtocol (url r)) (repositoryCloneUrl (head pr42)))
     (remotes storeRepository (st (start storeWithFork))) = Some forkRemote
   \<and> createRemote storeRepository plainProtocol (repositoryCloneUrl (head pr42)) (start storeWithFork)
       = (Inr (js ''fork''), start storeWithFork)
   \<and> list_all (\<lambda>r. \<not> equals plainProtocol (newProtocol plainProtocol (url r)) otherClone)
         (remotes storeRepository (st (start storeWithFork)))
   \<and> fst (createRemote storeRepository plainProtocol otherClone (start storeWithFork))
       = Inr (js ''origin1'')
   \<and> issued (createRemote storeRepository plainProtocol otherClone) (start storeWithFork)
       = [AddRemote (js ''origin1'') (js ''https://github.com/origin/hello-world''),
          SetConfig (js ''remote.origin1.github-pr-remote'') (js ''true'')]"
proof -
  note t = createRemote_spec [of plainProtocol _ storeRepository "start storeWithFork"]
  have 1: "find (\<lambda>r. equals plainProtocol (newProtocol plainProtocol (url r)) (repositoryCloneUrl (head pr42)))
     (remotes storeRepository (st (start storeWithFork))) = Some forkRemote"
    by (simp add: store_eval storeWithFork_def string_eval)
  from t [of "repositoryCloneUrl (head pr42)" forkRemote, THEN conjunct1, THEN mp, OF 1]
  have 2: "createRemote storeRepository plainProtocol (repositoryCloneUrl (head pr42)) (start storeWithFork)
       = (Inr (js ''fork''), start storeWithFork)"
    by (simp add: forkRemote_def)
  have 3: "\<forall>r\<in>set (remotes storeRepository (st (start storeWithFork))).
         \<not> equals plainProtocol (newProtocol plainProtocol (url r)) otherClone"
    by (simp add: store_eval storeWithFork_def otherClone_def string_eval)
  have u: "getUniqueRemoteName storeRepository (st (start storeWithFork)) (owner otherClone) = js ''origin1''"
    by (simp add: store_eval storeWithFork_def otherClone_def string_eval
          getUniqueRemoteName_def getUniqueRemoteName_loop.simps)
  from t [of otherClone forkRemote, THEN conjunct2, THEN conjunct1, THEN mp, OF 3]
  have 4: "fst (createRemote storeRepository plainProtocol otherClone (start storeWithFork))
       = Inr (js ''origin1'')"
    and 5: "issued (createRemote storeRepository plainProtocol otherClone) (start storeWithFork)
       = [AddRemote (js ''origin1'') (js ''https://github.com/origin/hello-world''),
          SetConfig (js ''remote.origin1.github-pr-remote'') (js ''true'')]"
    unfolding u by (simp_all add: issued_def start_def plainProtocol_def otherClone_def js_def)
  from 3 have "list_all (\<lambda>r. \<not> equals plainProtocol (newProtocol plainProtocol (url r)) otherClone)
         (remotes storeRepository (st (start storeWithFork)))"
    by (simp add: list_all_iff)
  with 1 2 4 5 show ?thesis by blast
qed

text \<open>
  C6. \<open>fetchAndCreateBranch\<close> ends in an error, its own \<^verbatim>\<open>Could not find branch\<close>,
  exactly when no branch \<^verbatim>\<open>refs/remotes/<remote>/<branchName>\<close> exists. When it exists,
  the result is a success and the calls are
  \<^verbatim>\<open>getBranch\<close>, \<^verbatim>\<open>createBranch\<close> at the commit of the tracked branch and
  \<^verbatim>\<open>setTrackingBranch\<close> to it. No fetch is issued in either case.
\<close>

theorem fetchAndCreateBranch_spec:
  "((\<exists>e. fst (fetchAndCreateBranch repository remote' branchName pr \<sigma>) = Inl e)
      \<longleftrightarrow> map_of (refs repository (st \<sigma>))
            (js ''refs/remotes/'' @ remoteName remote' @ js ''/'' @ branchName) = None)
   \<and> (map_of (refs repository (st \<sigma>))
         (js ''refs/remotes/'' @ remoteName remote' @ js ''/'' @ branchName) = Some tb
       \<longrightarrow> fetchAndCreateBranch repository remote' branchName pr \<sigma>
           = (Inr (),
              \<lparr> st = perform repository
                        (perform repository (st \<sigma>) (CreateBranch branchName (commit tb)))
                        (SetTrackingBranch branchName
                           (js ''refs/remotes/'' @ remoteName remote' @ js ''/'' @ branchName)),
                calls = calls \<sigma>
                  @ [GetBranch (js ''refs/remotes/'' @ remoteName remote' @ js ''/'' @ branchName),
                     CreateBranch branchName (commit tb),
                     SetTrackingBranch branchName
                       (js ''refs/remotes/'' @ remoteName remote' @ js ''/'' @ branchName)] \<rparr>))
   \<and> (map_of (refs repository (st \<sigma>))
         (js ''refs/remotes/'' @ remoteName remote' @ js ''/'' @ branchName) = None
       \<longrightarrow> fst (fetchAndCreateBranch repository remote' branchName pr \<sigma>)
           = Inl (Error (js ''Could not find branch '' @ [0x27]
                          @ (js ''refs/remotes/'' @ remoteName remote' @ js ''/'' @ branchName)
                          @ [0x27] @ js ''.'')))
   \<and> Fetch r spec \<notin> set (issued (fetchAndCreateBranch repository remote' branchName pr) \<sigma>)"
  by (cases "map_of (refs repository (st \<sigma>))
            (js ''refs/remotes/'' @ remoteName remote' @ js ''/'' @ branchName)")
     (simp_all add: fetchAndCreateBranch_def task_defs issued_def Let_def)


theorem fetchAndCreateBranch_spec_witness:
  "map_of (refs storeRepository (st (start storeWithFork))) (js ''refs/remotes/fork/feature-x'')
     = Some (newBranch (js ''refs/remotes/fork/feature-x'') (js ''1111111''))
   \<and> fst (fetchAndCreateBranch storeRepository forkRemote (js ''feature-x'') pr42 (start storeWithFork))
       = Inr ()
   \<and> issued (fetchAndCreateBranch storeRepository forkRemote (js ''feature-x'') pr42)
         (start storeWithFork)
       = [GetBranch (js ''refs/remotes/fork/feature-x''),
          CreateBranch (js ''feature-x'') (js ''1111111''),
          SetTrackingBranch (js ''feature-x'') (js ''refs/remotes/fork/feature-x'')]
   \<and> map_of (refs storeRepository (st (start emptyStore))) (js ''refs/remotes/fork/feature-x'') = None
   \<and> fst (fetchAndCreateBranch storeRepository forkRemote (js ''feature-x'') pr42 (start emptyStore))
       = Inl (Error (js ''Could not find branch '' @ [0x27] @ js ''refs/remotes/fork/feature-x''
                      @ [0x27] @ js ''.''))"
proof -
  have n: "js ''refs/remotes/'' @ remoteName forkRemote @ js ''/'' @ js ''feature-x''
           = js ''refs/remotes/fork/feature-x''"
    by (simp add: forkRemote_def js_def)
  have 0: "map_of (refs storeRepository (st (start emptyStore))) (js ''refs/remotes/fork/feature-x'') = None"
    by (simp add: store_eval emptyStore_def)
  note e = fetchAndCreateBranch_spec [of storeRepository forkRemote "js ''feature-x''" pr42
      "start emptyStore", THEN conjunct2, THEN conjunct2, THEN conjunct1, THEN mp, unfolded n, OF 0]
  have 1: "map_of (refs storeRepository (st (start storeWithFork))) (js ''refs/remotes/fork/feature-x'')
     = Some (newBranch (js ''refs/remotes/fork/feature-x'') (js ''1111111''))"
    by (simp add: store_eval storeWithFork_def string_eval)
  from fetchAndCreateBranch_spec [of storeRepository forkRemote "js ''feature-x''" pr42
      "start storeWithFork" "newBranch (js ''refs/remotes/fork/feature-x'') (js ''1111111'')",
      THEN conjunct2, THEN conjunct1, THEN mp, unfolded n, OF 1]
  have "fst (fetchAndCreateBranch storeRepository forkRemote (js ''feature-x'') pr42 (start storeWithFork))
       = Inr ()"
    and "issued (fetchAndCreateBranch storeRepository forkRemote (js ''feature-x'') pr42)
         (start storeWithFork)
       = [GetBranch (js ''refs/remotes/fork/feature-x''),
          CreateBranch (js ''feature-x'') (js ''1111111''),
          SetTrackingBranch (js ''feature-x'') (js ''refs/remotes/fork/feature-x'')]"
    by (simp_all add: issued_def start_def newBranch_def)
  with 0 1 e show ?thesis by blast
qed

text \<open>
  C7. \<open>fetchAndCheckout\<close> issues \<^verbatim>\<open>pull\<close> exactly when the branch it holds has
  \<^verbatim>\<open>behind > 0\<close> and \<^verbatim>\<open>ahead = 0\<close>; with \<^verbatim>\<open>behind\<close> undefined or zero, \<^verbatim>\<open>ahead\<close>
  undefined or not zero, or no branch at all, no pull is run.
\<close>

theorem fetchAndCheckout_pull:
  "Run [js ''pull''] \<in> set (issued (fetchAndCheckout repository remote' branchName pr) \<sigma>)
   \<longleftrightarrow> (case checkedOutBranch repository remote' branchName \<sigma> of
          None \<Rightarrow> False
        | Some b \<Rightarrow> (case behind b of None \<Rightarrow> False | Some n \<Rightarrow> 0 < n) \<and> ahead b = Some 0)"
  by (simp add: fetchAndCheckout_def fetchAndCreateBranch_def checkedOutBranch_def
        associateBranchWithPullRequest_def task_defs issued_def Let_def
      split: option.splits)


theorem fetchAndCheckout_pull_witness:
  "Run [js ''pull''] \<in> set (issued (fetchAndCheckout storeRepository forkRemote (js ''feature-x'') pr42)
                              (start storeBehind))
   \<and> Run [js ''pull''] \<notin> set (issued (fetchAndCheckout storeRepository forkRemote (js ''feature-x'') pr42)
                              (start storeWithFork))"
proof -
  have 1: "checkedOutBranch storeRepository forkRemote (js ''feature-x'') (start storeBehind)
     = Some \<lparr> name = js ''feature-x'', commit = js ''0000000'',
              upstream = Some (js ''refs/remotes/fork/feature-x''),
              ahead = Some 0, behind = Some 2 \<rparr>"
    by (simp add: checkedOutBranch_def store_eval storeBehind_def string_eval)
  have 2: "checkedOutBranch storeRepository forkRemote (js ''feature-x'') (start storeWithFork)
     = Some \<lparr> name = js ''feature-x'', commit = js ''1111111'',
              upstream = Some (js ''refs/remotes/fork/feature-x''),
              ahead = None, behind = None \<rparr>"
    by (simp add: checkedOutBranch_def store_eval storeWithFork_def string_eval)
  from fetchAndCheckout_pull [of storeRepository forkRemote "js ''feature-x''" pr42 "start storeBehind"]
  have a: "Run [js ''pull''] \<in> set (issued (fetchAndCheckout storeRepository forkRemote (js ''feature-x'') pr42)
                              (start storeBehind))"
    unfolding 1 by simp
  from fetchAndCheckout_pull [of storeRepository forkRemote "js ''feature-x''" pr42 "start storeWithFork"]
  have b: "Run [js ''pull''] \<notin> set (issued (fetchAndCheckout storeRepository forkRemote (js ''feature-x'') pr42)
                              (start storeWithFork))"
    unfolding 2 by simp
  from a b show ?thesis by blast
qed

text \<open>
  C8, as the claim states it, fails: a first result that is the empty string is not
  \<^verbatim>\<open>null\<close>, yet it is not returned; the helper fetches and asks again.
\<close>

theorem getPullRequestMergeBase_counterexample:
  "mergeBase refetchingRepository (st (start 0)) (sha (base pr42)) (sha (head pr42)) = Some []
   \<and> fst (getPullRequestMergeBase refetchingRepository forkRemote pr42 (start 0))
       = Inr (Some (js ''3333333''))
   \<and> issued (getPullRequestMergeBase refetchingRepository forkRemote pr42) (start 0)
       = [GetMergeBase (js ''2222222'') (js ''1111111''),
          Fetch (js ''fork'') (Some (js ''refs/pull/42/head'')),
          Fetch (js ''fork'') (Some (js ''master'')),
          GetMergeBase (js ''2222222'') (js ''1111111'')]"
  by (simp add: getPullRequestMergeBase_def refetchingRepository_def store_eval eval_defs
        string_eval)

text \<open>
  C8, amended. \<open>getPullRequestMergeBase\<close> calls \<^verbatim>\<open>getMergeBase\<close> and returns the result
  when it is truthy, that is neither \<^verbatim>\<open>null\<close> nor the empty string. Otherwise it fetches
  \<^verbatim>\<open>refs/pull/<number>/head\<close> and the base ref from the remote, calls \<^verbatim>\<open>getMergeBase\<close> once
  more and returns what that call reports.
\<close>

theorem getPullRequestMergeBase_spec:
  "(truthy (mergeBase repository (st \<sigma>) (sha (base pr)) (sha (head pr)))
      \<longrightarrow> getPullRequestMergeBase repository remote' pr \<sigma>
          = (Inr (mergeBase repository (st \<sigma>) (sha (base pr)) (sha (head pr))),
             \<lparr> st = st \<sigma>,
               calls = calls \<sigma> @ [GetMergeBase (sha (base pr)) (sha (head pr))] \<rparr>))
   \<and> (\<not> truthy (mergeBase repository (st \<sigma>) (sha (base pr)) (sha (head pr)))
      \<longrightarrow> getPullRequestMergeBase repository remote' pr \<sigma>
          = (Inr (mergeBase repository
                    (perform repository
                       (perform repository (st \<sigma>)
                          (Fetch (remoteName remote')
                             (Some (js ''refs/pull/'' @ Number_toString (prNumber pr) @ js ''/head''))))
                       (Fetch (remoteName remote') (Some (ref (base pr)))))
                    (sha (base pr)) (sha (head pr))),
             \<lparr> st = perform repository
                       (perform repository (st \<sigma>)
                          (Fetch (remoteName remote')
                             (Some (js ''refs/pull/'' @ Number_toString (prNumber pr) @ js ''/head''))))
                       (Fetch (remoteName remote') (Some (ref (base pr)))),
               calls = calls \<sigma>
                 @ [GetMergeBase (sha (base pr)) (sha (head pr)),
                    Fetch (remoteName remote')
                      (Some (js ''refs/pull/'' @ Number_toString (prNumber pr) @ js ''/head'')),
                    Fetch (remoteName remote') (Some (ref (base pr))),
                    GetMergeBase (sha (base pr)) (sha (head pr))] \<rparr>))"
  by (cases \<sigma>) (simp add: getPullRequestMergeBase_def task_defs)


theorem getPullRequestMergeBase_spec_witness:
  "truthy (mergeBase refetchingRepository (st (start 2)) (sha (base pr42)) (sha (head pr42)))
   \<and> getPullRequestMergeBase refetchingRepository forkRemote pr42 (start 2)
       = (Inr (Some (js ''3333333'')),
          \<lparr> st = 2, calls = [GetMergeBase (js ''2222222'') (js ''1111111'')] \<rparr>)
   \<and> \<not> truthy (mergeBase refetchingRepository (st (start 0)) (sha (base pr42)) (sha (head pr42)))
   \<and> getPullRequestMergeBase refetchingRepository forkRemote pr42 (start 0)
       = (Inr (Some (js ''3333333'')),
          \<lparr> st = 2,
            calls = [GetMergeBase (js ''2222222'') (js ''1111111''),
                     Fetch (js ''fork'') (Some (js ''refs/pull/42/head'')),
                     Fetch (js ''fork'') (Some (js ''master'')),
                     GetMergeBase (js ''2222222'') (js ''1111111'')] \<rparr>)"
proof -
  have 1: "truthy (mergeBase refetchingRepository (st (start 2)) (sha (base pr42)) (sha (head pr42)))"
    by (simp add: refetchingRepository_def store_eval eval_defs js_def)
  have 2: "\<not> truthy (mergeBase refetchingRepository (st (start 0)) (sha (base pr42)) (sha (head pr42)))"
    by (simp add: refetchingRepository_def store_eval eval_defs js_def)
  from getPullRequestMergeBase_spec [of refetchingRepository "start 2" pr42 forkRemote,
      THEN conjunct1, THEN mp, OF 1]
  have 3: "getPullRequestMergeBase refetchingRepository forkRemote pr42 (start 2)
       = (Inr (Some (js ''3333333'')),
          \<lparr> st = 2, calls = [GetMergeBase (js ''2222222'') (js ''1111111'')] \<rparr>)"
    by (simp add: refetchingRepository_def store_eval js_def)
  from getPullRequestMergeBase_spec [of refetchingRepository "start 0" pr42 forkRemote,
      THEN conjunct2, THEN mp, OF 2]
  have 4: "getPullRequestMergeBase refetchingRepository forkRemote pr42 (start 0)
       = (Inr (Some (js ''3333333'')),
          \<lparr> st = 2,
            calls = [GetMergeBase (js ''2222222'') (js ''1111111''),
                     Fetch (js ''fork'') (Some (js ''refs/pull/42/head'')),
                     Fetch (js ''fork'') (Some (js ''master'')),
                     GetMergeBase (js ''2222222'') (js ''1111111'')] \<rparr>)"
    by (simp add: refetchingRepository_def store_eval string_eval)
  from 1 2 3 4 show ?thesis by blast
qed

lemma lookup_result:
  assumes none: "getHeadRemoteForPullRequest P ghs pr = None"
  shows "fst (getBranchForPullRequestFromExistingRemotes repository P ghs pr \<sigma>)
          = Inr (case branchInfosOf (buildPullRequestMetadata pr) (configEntries repository (st \<sigma>)) of
                   [] \<Rightarrow> None
                 | info # _ \<Rightarrow>
                     (case find (\<lambda>r. Some (remoteName r)
                                     = configValue repository (st \<sigma>)
                                         (js ''branch.'' @ templated (fst info) @ js ''.remote''))
                             (remotes repository (st \<sigma>)) of
                        None \<Rightarrow> None
                      | Some m \<Rightarrow> Some (m, fst info)))"
  by (cases "branchInfosOf (buildPullRequestMetadata pr) (configEntries repository (st \<sigma>))")
     (simp_all add: getBranchForPullRequestFromExistingRemotes_def none task_defs Let_def
        case_filter_find [symmetric] split: list.splits)

text \<open>
  C2, as the claim states it, fails: of the branches that carry the metadata only the
  first is looked at. Here the branch \<^verbatim>\<open>b\<close> carries it and its remote \<^verbatim>\<open>origin\<close> exists,
  but the first such branch, \<^verbatim>\<open>a\<close>, has no remote entry, and the result is \<^verbatim>\<open>null\<close>.
\<close>

theorem getBranchForPullRequestFromExistingRemotes_counterexample:
  "map_of (configEntries storeRepository storeTwoAssociations) (js ''branch.b.github-pr-owner-number'')
     = Some (buildPullRequestMetadata pr42)
   \<and> configValue storeRepository storeTwoAssociations (js ''branch.b.remote'')
       = Some (remoteName originRemote)
   \<and> originRemote \<in> set (remotes storeRepository storeTwoAssociations)
   \<and> getHeadRemoteForPullRequest plainProtocol [] pr42 = None
   \<and> fst (getBranchForPullRequestFromExistingRemotes storeRepository plainProtocol [] pr42
            (start storeTwoAssociations))
       = Inr None"
  by (simp add: storeTwoAssociations_def getBranchForPullRequestFromExistingRemotes_def branchInfosOf_def
        buildPullRequestMetadata_def PullRequestBranchRegex_def
        store_eval eval_defs string_eval rx_eval)


text \<open>
  C2, amended. When the remote of some known repository has the clone identity of the
  pull request's head, \<open>getBranchForPullRequestFromExistingRemotes\<close> returns the first
  such remote with the head ref, without a call to the repository. Otherwise it takes
  the first config entry, in the order of \<^verbatim>\<open>getConfigs\<close>, whose key matches the branch
  pattern and whose value is the encoded metadata, and no other entry: the entries before
  it, with another value or a key that does not match, are passed over, and the result is
  the first remote named by \<^verbatim>\<open>branch.<name>.remote\<close> with that branch, or \<^verbatim>\<open>null\<close> when no
  remote bears that name. It is \<^verbatim>\<open>null\<close> as well when no entry has a matching key and the
  encoded metadata as its value. A key matches only if it holds
  \<^verbatim>\<open>branch.<name>.github-pr-owner-number\<close> with a non-empty name, which is the branch; the
  key \<^verbatim>\<open>branch.<name>.github-pr-owner-number\<close> itself, with a non-empty name free of line
  terminators, matches with the branch \<^verbatim>\<open><name>\<close>.
\<close>

theorem getBranchForPullRequestFromExistingRemotes_spec:
  "(getHeadRemoteForPullRequest P ghs pr = Some hr
      \<longrightarrow> getBranchForPullRequestFromExistingRemotes repository P ghs pr \<sigma>
          = (Inr (Some (hr, Some (ref (head pr)))), \<sigma>))
   \<and> (getHeadRemoteForPullRequest P ghs pr = None
      \<longrightarrow> fst (getBranchForPullRequestFromExistingRemotes repository P ghs pr \<sigma>)
          = Inr (case branchInfosOf (buildPullRequestMetadata pr) (configEntries repository (st \<sigma>)) of
                   [] \<Rightarrow> None
                 | info # _ \<Rightarrow>
                     (case find (\<lambda>r. Some (remoteName r)
                                     = configValue repository (st \<sigma>)
                                         (js ''branch.'' @ templated (fst info) @ js ''.remote''))
                             (remotes repository (st \<sigma>)) of
                        None \<Rightarrow> None
                      | Some m \<Rightarrow> Some (m, fst info)))
        \<and> st (snd (getBranchForPullRequestFromExistingRemotes repository P ghs pr \<sigma>)) = st \<sigma>)
   \<and> getHeadRemoteForPullRequest P ghs pr
       = map_option remote
           (find (\<lambda>g. case gitProtocol (remote g) of
                        None \<Rightarrow> False
                      | Some p \<Rightarrow> equals P p (repositoryCloneUrl (head pr))) ghs)
   \<and> (n \<noteq> [] \<and> (\<forall>x\<in>set n. \<not> isLineTerminator x)
      \<longrightarrow> branchInfosOf key ((js ''branch.'' @ n @ js ''.github-pr-owner-number'', key) # configs)
          = (Some n, key) # branchInfosOf key configs)
   \<and> (v \<noteq> key \<longrightarrow> branchInfosOf key ((k, v) # configs) = branchInfosOf key configs)
   \<and> (rx_exec PullRequestBranchRegex k = None
      \<longrightarrow> branchInfosOf key ((k, v) # configs) = branchInfosOf key configs)
   \<and> (rx_exec PullRequestBranchRegex k = Some caps
      \<longrightarrow> (\<exists>before m after.
             k = before @ js ''branch.'' @ m @ js ''.github-pr-owner-number'' @ after
             \<and> caps = [m] \<and> m \<noteq> []
             \<and> branchInfosOf key ((k, key) # configs) = (Some m, key) # branchInfosOf key configs))
   \<and> (getHeadRemoteForPullRequest P ghs pr = None
       \<and> configEntries repository (st \<sigma>) = pre @ (k, buildPullRequestMetadata pr) # post
       \<and> (\<forall>e\<in>set pre. snd e \<noteq> buildPullRequestMetadata pr
                          \<or> rx_exec PullRequestBranchRegex (fst e) = None)
       \<and> rx_exec PullRequestBranchRegex k = Some [b]
      \<longrightarrow> fst (getBranchForPullRequestFromExistingRemotes repository P ghs pr \<sigma>)
          = Inr (case find (\<lambda>r. Some (remoteName r)
                                  = configValue repository (st \<sigma>) (js ''branch.'' @ b @ js ''.remote''))
                        (remotes repository (st \<sigma>)) of
                   None \<Rightarrow> None
                 | Some m \<Rightarrow> Some (m, Some b)))
   \<and> (getHeadRemoteForPullRequest P ghs pr = None
       \<and> (\<forall>e\<in>set (configEntries repository (st \<sigma>)).
             snd e \<noteq> buildPullRequestMetadata pr
             \<or> rx_exec PullRequestBranchRegex (fst e) = None)
      \<longrightarrow> fst (getBranchForPullRequestFromExistingRemotes repository P ghs pr \<sigma>) = Inr None)"
proof (intro conjI impI)
  assume "getHeadRemoteForPullRequest P ghs pr = Some hr"
  then show "getBranchForPullRequestFromExistingRemotes repository P ghs pr \<sigma>
          = (Inr (Some (hr, Some (ref (head pr)))), \<sigma>)"
    by (simp add: getBranchForPullRequestFromExistingRemotes_def resolve_def)
next
  assume none: "getHeadRemoteForPullRequest P ghs pr = None"
  show "fst (getBranchForPullRequestFromExistingRemotes repository P ghs pr \<sigma>)
          = Inr (case branchInfosOf (buildPullRequestMetadata pr) (configEntries repository (st \<sigma>)) of
                   [] \<Rightarrow> None
                 | info # _ \<Rightarrow>
                     (case find (\<lambda>r. Some (remoteName r)
                                     = configValue repository (st \<sigma>)
                                         (js ''branch.'' @ templated (fst info) @ js ''.remote''))
                             (remotes repository (st \<sigma>)) of
                        None \<Rightarrow> None
                      | Some m \<Rightarrow> Some (m, fst info)))"
    using none by (rule lookup_result)
  show "st (snd (getBranchForPullRequestFromExistingRemotes repository P ghs pr \<sigma>)) = st \<sigma>"
    by (cases "branchInfosOf (buildPullRequestMetadata pr) (configEntries repository (st \<sigma>))")
       (simp_all add: getBranchForPullRequestFromExistingRemotes_def none task_defs Let_def
          split: list.splits)
next
  show "getHeadRemoteForPullRequest P ghs pr
       = map_option remote
           (find (\<lambda>g. case gitProtocol (remote g) of
                        None \<Rightarrow> False
                      | Some p \<Rightarrow> equals P p (repositoryCloneUrl (head pr))) ghs)"
    by (rule getHeadRemote_find)
next
  assume "n \<noteq> [] \<and> (\<forall>x\<in>set n. \<not> isLineTerminator x)"
  then have "rx_exec PullRequestBranchRegex (js ''branch.'' @ n @ js ''.github-pr-owner-number'') = Some [n]"
    and "n \<noteq> []"
    by (simp_all add: branch_key_capture)
  then show "branchInfosOf key ((js ''branch.'' @ n @ js ''.github-pr-owner-number'', key) # configs)
          = (Some n, key) # branchInfosOf key configs"
    by (simp add: branchInfosOf_def truthy_def)
next
  assume "v \<noteq> key"
  then show "branchInfosOf key ((k, v) # configs) = branchInfosOf key configs"
    by (rule branchInfosOf_other_value)
next
  assume "rx_exec PullRequestBranchRegex k = None"
  then show "branchInfosOf key ((k, v) # configs) = branchInfosOf key configs"
    by (rule branchInfosOf_other_key)
next
  assume m: "rx_exec PullRequestBranchRegex k = Some caps"
  from branch_execD [OF m] obtain before m' after
    where k: "k = before @ js ''branch.'' @ m' @ js ''.github-pr-owner-number'' @ after"
      and c: "caps = [m']" "m' \<noteq> []" by blast
  from branchInfosOf_match [OF m, of key configs] c
  have "branchInfosOf key ((k, key) # configs) = (Some m', key) # branchInfosOf key configs"
    by simp
  with k c show "\<exists>before m after.
             k = before @ js ''branch.'' @ m @ js ''.github-pr-owner-number'' @ after
             \<and> caps = [m] \<and> m \<noteq> []
             \<and> branchInfosOf key ((k, key) # configs) = (Some m, key) # branchInfosOf key configs"
    by blast
next
  assume h: "getHeadRemoteForPullRequest P ghs pr = None
       \<and> configEntries repository (st \<sigma>) = pre @ (k, buildPullRequestMetadata pr) # post
       \<and> (\<forall>e\<in>set pre. snd e \<noteq> buildPullRequestMetadata pr
                          \<or> rx_exec PullRequestBranchRegex (fst e) = None)
       \<and> rx_exec PullRequestBranchRegex k = Some [b]"
  then have none: "getHeadRemoteForPullRequest P ghs pr = None"
    and cs: "configEntries repository (st \<sigma>) = pre @ (k, buildPullRequestMetadata pr) # post"
    and skip: "\<forall>e\<in>set pre. snd e \<noteq> buildPullRequestMetadata pr
                          \<or> rx_exec PullRequestBranchRegex (fst e) = None"
    and m: "rx_exec PullRequestBranchRegex k = Some [b]"
    by simp_all
  have first: "branchInfosOf (buildPullRequestMetadata pr) (configEntries repository (st \<sigma>))
        = (Some b, buildPullRequestMetadata pr) # branchInfosOf (buildPullRequestMetadata pr) post"
    by (simp only: cs branchInfosOf_first [OF skip m])
  from lookup_result [OF none, of repository \<sigma>] show "fst (getBranchForPullRequestFromExistingRemotes repository P ghs pr \<sigma>)
          = Inr (case find (\<lambda>r. Some (remoteName r)
                                  = configValue repository (st \<sigma>) (js ''branch.'' @ b @ js ''.remote''))
                        (remotes repository (st \<sigma>)) of
                   None \<Rightarrow> None
                 | Some m \<Rightarrow> Some (m, Some b))"
    by (simp add: first templated_def split: option.splits)
next
  assume h: "getHeadRemoteForPullRequest P ghs pr = None
       \<and> (\<forall>e\<in>set (configEntries repository (st \<sigma>)).
             snd e \<noteq> buildPullRequestMetadata pr
             \<or> rx_exec PullRequestBranchRegex (fst e) = None)"
  then have none: "getHeadRemoteForPullRequest P ghs pr = None"
    and skip: "\<forall>e\<in>set (configEntries repository (st \<sigma>)).
             snd e \<noteq> buildPullRequestMetadata pr
             \<or> rx_exec PullRequestBranchRegex (fst e) = None"
    by simp_all
  from skip have "branchInfosOf (buildPullRequestMetadata pr) (configEntries repository (st \<sigma>)) = []"
    by (rule branchInfosOf_none)
  with lookup_result [OF none, of repository \<sigma>]
  show "fst (getBranchForPullRequestFromExistingRemotes repository P ghs pr \<sigma>) = Inr None"
    by simp
qed

theorem getBranchForPullRequestFromExistingRemotes_spec_witness:
  "getHeadRemoteForPullRequest plainProtocol [\<lparr> remote = forkRemote \<rparr>] pr42 = Some forkRemote
   \<and> getBranchForPullRequestFromExistingRemotes storeRepository plainProtocol
        [\<lparr> remote = forkRemote \<rparr>] pr42 (start storeTwoAssociations)
       = (Inr (Some (forkRemote, Some (js ''feature-x''))), start storeTwoAssociations)
   \<and> getHeadRemoteForPullRequest plainProtocol [\<lparr> remote = originRemote \<rparr>] pr42 = None
   \<and> fst (getBranchForPullRequestFromExistingRemotes storeRepository plainProtocol
             [\<lparr> remote = originRemote \<rparr>] pr42 (start storeFirstAssociation))
       = Inr (Some (originRemote, Some (js ''a'')))
   \<and> js ''a'' \<noteq> [] \<and> list_all (\<lambda>x. \<not> isLineTerminator x) (js ''a'')
   \<and> branchInfosOf (js ''octocat#hello-world#42'')
        [(js ''branch.'' @ js ''a'' @ js ''.github-pr-owner-number'', js ''octocat#hello-world#42'')]
       = [(Some (js ''a''), js ''octocat#hello-world#42'')]
   \<and> js ''octocat#hello-world#7'' \<noteq> js ''octocat#hello-world#42''
   \<and> branchInfosOf (js ''octocat#hello-world#42'')
        [(js ''branch.z.github-pr-owner-number'', js ''octocat#hello-world#7'')] = []
   \<and> rx_exec PullRequestBranchRegex (js ''user.name'') = None
   \<and> branchInfosOf (js ''octocat#hello-world#42'')
        [(js ''user.name'', js ''octocat#hello-world#42'')] = []
   \<and> rx_exec PullRequestBranchRegex (js ''branch.a.github-pr-owner-number'') = Some [js ''a'']
   \<and> branchInfosOf (js ''octocat#hello-world#42'')
        [(js ''branch.a.github-pr-owner-number'', js ''octocat#hello-world#42'')]
       = [(Some (js ''a''), js ''octocat#hello-world#42'')]
   \<and> configEntries storeRepository (st (start storeUserFirst))
       = [(js ''user.name'', js ''x'')]
         @ (js ''branch.a.github-pr-owner-number'', buildPullRequestMetadata pr42)
         # [(js ''branch.a.remote'', js ''origin'')]
   \<and> fst (getBranchForPullRequestFromExistingRemotes storeRepository plainProtocol
             [\<lparr> remote = originRemote \<rparr>] pr42 (start storeUserFirst))
       = Inr (Some (originRemote, Some (js ''a'')))
   \<and> list_all (\<lambda>e. snd e \<noteq> buildPullRequestMetadata pr42)
         (configEntries storeRepository (st (start storeOtherAssociation)))
   \<and> fst (getBranchForPullRequestFromExistingRemotes storeRepository plainProtocol
             [\<lparr> remote = originRemote \<rparr>] pr42 (start storeOtherAssociation))
       = Inr None"
proof -
  note t = getBranchForPullRequestFromExistingRemotes_spec [where P = plainProtocol and pr = pr42
      and repository = storeRepository]
  let ?key = "js ''octocat#hello-world#42''"
  have key: "buildPullRequestMetadata pr42 = ?key"
    by (simp add: buildPullRequestMetadata_def pr42_def string_eval)
  have nil: "branchInfosOf ?key [] = []" by (simp add: branchInfosOf_def)
  have 1: "getHeadRemoteForPullRequest plainProtocol [\<lparr> remote = forkRemote \<rparr>] pr42 = Some forkRemote"
    by (simp add: store_eval string_eval)
  from t [where ghs = "[\<lparr> remote = forkRemote \<rparr>]" and hr = forkRemote
      and \<sigma> = "start storeTwoAssociations", THEN conjunct1, THEN mp, OF 1]
  have 2: "getBranchForPullRequestFromExistingRemotes storeRepository plainProtocol
        [\<lparr> remote = forkRemote \<rparr>] pr42 (start storeTwoAssociations)
       = (Inr (Some (forkRemote, Some (js ''feature-x''))), start storeTwoAssociations)"
    by (simp add: pr42_def)
  have 3: "getHeadRemoteForPullRequest plainProtocol [\<lparr> remote = originRemote \<rparr>] pr42 = None"
    by (simp add: store_eval string_eval)
  have e: "(case branchInfosOf (buildPullRequestMetadata pr42)
                 (configEntries storeRepository (st (start storeFirstAssociation))) of
            [] \<Rightarrow> None
          | info # _ \<Rightarrow>
              (case find (\<lambda>r. Some (remoteName r)
                              = configValue storeRepository (st (start storeFirstAssociation))
                                  (js ''branch.'' @ templated (fst info) @ js ''.remote''))
                      (remotes storeRepository (st (start storeFirstAssociation))) of
                 None \<Rightarrow> None
               | Some m \<Rightarrow> Some (m, fst info)))
           = Some (originRemote, Some (js ''a''))"
    by (simp add: storeFirstAssociation_def storeTwoAssociations_def branchInfosOf_def
          buildPullRequestMetadata_def PullRequestBranchRegex_def
          store_eval eval_defs string_eval rx_eval)
  from t [where ghs = "[\<lparr> remote = originRemote \<rparr>]" and \<sigma> = "start storeFirstAssociation",
      THEN conjunct2, THEN conjunct1, THEN mp, OF 3, THEN conjunct1]
  have 4: "fst (getBranchForPullRequestFromExistingRemotes storeRepository plainProtocol
             [\<lparr> remote = originRemote \<rparr>] pr42 (start storeFirstAssociation))
       = Inr (Some (originRemote, Some (js ''a'')))"
    unfolding e .
  have 5: "js ''a'' \<noteq> [] \<and> (\<forall>x\<in>set (js ''a''). \<not> isLineTerminator x)"
    by (simp add: js_def isLineTerminator_def)
  from t [where n = "js ''a''" and key = ?key and configs = "[]",
      THEN conjunct2, THEN conjunct2, THEN conjunct2, THEN conjunct1, THEN mp, OF 5]
  have 6: "branchInfosOf ?key
        [(js ''branch.'' @ js ''a'' @ js ''.github-pr-owner-number'', ?key)]
       = [(Some (js ''a''), ?key)]"
    by (simp add: nil)
  have 7: "js ''octocat#hello-world#7'' \<noteq> ?key" by (simp add: js_def)
  from t [where v = "js ''octocat#hello-world#7''" and key = ?key and configs = "[]"
      and k = "js ''branch.z.github-pr-owner-number''",
      THEN conjunct2, THEN conjunct2, THEN conjunct2, THEN conjunct2, THEN conjunct1, THEN mp, OF 7]
  have 8: "branchInfosOf ?key [(js ''branch.z.github-pr-owner-number'', js ''octocat#hello-world#7'')] = []"
    by (simp add: nil)
  have 9: "rx_exec PullRequestBranchRegex (js ''user.name'') = None"
    by (simp add: PullRequestBranchRegex_def string_eval rx_eval)
  from t [where k = "js ''user.name''" and v = ?key and key = ?key and configs = "[]",
      THEN conjunct2, THEN conjunct2, THEN conjunct2, THEN conjunct2, THEN conjunct2, THEN conjunct1, THEN mp, OF 9]
  have 10: "branchInfosOf ?key [(js ''user.name'', ?key)] = []"
    by (simp add: nil)
  have 11: "rx_exec PullRequestBranchRegex (js ''branch.a.github-pr-owner-number'') = Some [js ''a'']"
    by (simp add: PullRequestBranchRegex_def string_eval rx_eval)
  from t [where k = "js ''branch.a.github-pr-owner-number''" and caps = "[js ''a'']"
      and key = ?key and configs = "[]",
      THEN conjunct2, THEN conjunct2, THEN conjunct2, THEN conjunct2, THEN conjunct2, THEN conjunct2, THEN conjunct1, THEN mp, OF 11]
  have 12: "branchInfosOf ?key [(js ''branch.a.github-pr-owner-number'', ?key)]
       = [(Some (js ''a''), ?key)]"
    by (auto simp: nil)
  have 13: "configEntries storeRepository (st (start storeUserFirst))
       = [(js ''user.name'', js ''x'')]
         @ (js ''branch.a.github-pr-owner-number'', buildPullRequestMetadata pr42)
         # [(js ''branch.a.remote'', js ''origin'')]"
    by (simp add: key) (simp add: storeUserFirst_def store_eval)
  have 14: "\<forall>e\<in>set [(js ''user.name'', js ''x'')].
              snd e \<noteq> buildPullRequestMetadata pr42
              \<or> rx_exec PullRequestBranchRegex (fst e) = None"
    by (simp add: key js_def)
  have f: "(case find (\<lambda>r. Some (remoteName r)
                          = configValue storeRepository (st (start storeUserFirst))
                              (js ''branch.'' @ js ''a'' @ js ''.remote''))
                  (remotes storeRepository (st (start storeUserFirst))) of
              None \<Rightarrow> None
            | Some m \<Rightarrow> Some (m, Some (js ''a'')))
           = Some (originRemote, Some (js ''a''))"
    by (simp add: storeUserFirst_def store_eval string_eval)
  from t [where ghs = "[\<lparr> remote = originRemote \<rparr>]" and \<sigma> = "start storeUserFirst"
      and pre = "[(js ''user.name'', js ''x'')]" and k = "js ''branch.a.github-pr-owner-number''"
      and post = "[(js ''branch.a.remote'', js ''origin'')]" and b = "js ''a''",
      THEN conjunct2, THEN conjunct2, THEN conjunct2, THEN conjunct2, THEN conjunct2, THEN conjunct2, THEN conjunct2, THEN conjunct1, THEN mp,
      OF conjI [OF 3 conjI [OF 13 conjI [OF 14 11]]]]
  have 15: "fst (getBranchForPullRequestFromExistingRemotes storeRepository plainProtocol
             [\<lparr> remote = originRemote \<rparr>] pr42 (start storeUserFirst))
       = Inr (Some (originRemote, Some (js ''a'')))"
    unfolding f .
  have 16: "list_all (\<lambda>e. snd e \<noteq> buildPullRequestMetadata pr42)
         (configEntries storeRepository (st (start storeOtherAssociation)))"
    by (simp add: key) (simp add: storeOtherAssociation_def store_eval js_def)
  then have 17: "\<forall>e\<in>set (configEntries storeRepository (st (start storeOtherAssociation))).
             snd e \<noteq> buildPullRequestMetadata pr42
             \<or> rx_exec PullRequestBranchRegex (fst e) = None"
    by (simp add: list_all_iff)
  from t [where ghs = "[\<lparr> remote = originRemote \<rparr>]" and \<sigma> = "start storeOtherAssociation",
      THEN conjunct2, THEN conjunct2, THEN conjunct2, THEN conjunct2, THEN conjunct2, THEN conjunct2, THEN conjunct2, THEN conjunct2, THEN mp,
      OF conjI [OF 3 17]]
  have 18: "fst (getBranchForPullRequestFromExistingRemotes storeRepository plainProtocol
             [\<lparr> remote = originRemote \<rparr>] pr42 (start storeOtherAssociation))
       = Inr None" .
  from 5 have ne: "js ''a'' \<noteq> []" and plain: "list_all (\<lambda>x. \<not> isLineTerminator x) (js ''a'')"
    by (simp_all add: list_all_iff)
  from 6 have six: "branchInfosOf ?key
        [(js ''branch.'' @ js ''a'' @ js ''.github-pr-owner-number'', ?key)]
       = [(Some (js ''a''), ?key)]" .
  show ?thesis
    by (intro conjI) (rule 1 2 3 4 ne plain six 7 8 9 10 11 12 13 15 16 18)+
qed

end
